theory Spec2Isabelle
  imports Complex_Main "HOL-Library.Log_Nat"
begin

section \<open>Numbers, configuration and host readings\<close>

text \<open>
  The page is a single React component file (\<^verbatim>\<open>app/page.tsx\<close>); the repository holds
  two revisions of it, the later one adding click/touch dragging and two badges. The
  embedding follows the later revision and notes where the earlier one differs.

  A JavaScript \<^verbatim>\<open>number\<close> is modelled as a real number: the formulas are the ones of
  the source, evaluated without IEEE rounding. A reading that may be absent
  (\<^verbatim>\<open>undefined\<close>) is a \<^typ>\<open>real option\<close>. Two later sections refine this where a
  property depends on it: one follows the camera rig with a scroll offset that may be
  \<^verbatim>\<open>NaN\<close> or infinite, one follows the easing updates with the rounding of doubles.
\<close>

definition Math_PI :: real where
  \<comment> \<open>the double nearest to pi, exactly\<close>
  "Math_PI = 884279719003555 / 281474976710656"

definition MODEL_SCALE :: real where
  "MODEL_SCALE = 1.2"

definition MODEL_Y_OFFSET :: real where
  "MODEL_Y_OFFSET = - 0.5"

definition ROTATION_INTENSITY :: real where
  "ROTATION_INTENSITY = 0.9"

definition VERTICAL_BOB :: real where
  "VERTICAL_BOB = 0.6"

definition HOVER_POINTER_ROT_MAX :: real where
  "HOVER_POINTER_ROT_MAX = 0.45"

definition DRAG_SENSITIVITY :: real where
  "DRAG_SENSITIVITY = Math_PI * 1.4"

text \<open>
  \<^verbatim>\<open>a || d\<close> on numbers: the left operand when it is truthy (present and not zero),
  the right one otherwise.
\<close>

definition num_or :: "real option \<Rightarrow> real \<Rightarrow> real" where
  "num_or a d = (case a of None \<Rightarrow> d | Some v \<Rightarrow> if v = 0 then d else v)"

text \<open>\<^verbatim>\<open>Math.round\<close>: the nearest integer, halves rounded up.\<close>

definition Math_round :: "real \<Rightarrow> int" where
  "Math_round v = \<lfloor>v + 1 / 2\<rfloor>"

text \<open>What the handlers and frame callbacks read from \<^verbatim>\<open>window\<close> and \<^verbatim>\<open>document\<close>.\<close>

record host =
  scrollY :: "real option"
  pageYOffset :: "real option"
  docScrollHeight :: "real option"
  bodyScrollHeight :: "real option"
  innerHeight :: "real option"
  innerWidth :: "real option"

section \<open>Scroll-offset normalisation\<close>

text \<open>
  The same five lines stand in \<^verbatim>\<open>CameraRig\<close>, \<^verbatim>\<open>ScrollOverlay\<close> and
  \<^verbatim>\<open>ScrollBadge\<close>:
  \<^verbatim>\<open>
  const scrollY = window.scrollY || window.pageYOffset || 0;
  const docH = document.documentElement.scrollHeight || document.body.scrollHeight || 1;
  const winH = window.innerHeight || 1;
  const maxScroll = Math.max(1, docH - winH);
  const norm = Math.min(Math.max(scrollY / maxScroll, 0), 1);
  \<close>
\<close>

definition read_scrollY :: "host \<Rightarrow> real" where
  "read_scrollY h = num_or (scrollY h) (num_or (pageYOffset h) 0)"

definition read_docH :: "host \<Rightarrow> real" where
  "read_docH h = num_or (docScrollHeight h) (num_or (bodyScrollHeight h) 1)"

definition read_winH :: "host \<Rightarrow> real" where
  "read_winH h = num_or (innerHeight h) 1"

definition maxScroll :: "host \<Rightarrow> real" where
  "maxScroll h = max 1 (read_docH h - read_winH h)"

definition windowNorm :: "host \<Rightarrow> real" where
  "windowNorm h = min (max (read_scrollY h / maxScroll h) 0) 1"

text \<open>The normalisation in the words of the specification.\<close>

definition clamp :: "real \<Rightarrow> real \<Rightarrow> real \<Rightarrow> real" where
  "clamp v lo hi = (if v < lo then lo else if hi < v then hi else v)"

definition or_default :: "real option \<Rightarrow> real \<Rightarrow> real" where
  \<comment> \<open>"defaulted when zero or missing"\<close>
  "or_default a d = (if a = None \<or> a = Some 0 then d else the a)"

definition spec_scroll_fraction :: "real \<Rightarrow> real \<Rightarrow> real \<Rightarrow> real" where
  "spec_scroll_fraction sy docH winH = clamp (sy / max 1 (docH - winH)) 0 1"

text \<open>
  \<^verbatim>\<open>ScrollBadge\<close>: the state \<^verbatim>\<open>scrolled\<close> starts at 0; a scroll or resize event
  requests an animation frame unless one is pending; the frame stores the normalised
  offset and clears the request. The badge shows \<^verbatim>\<open>Math.round(scrolled * 100)\<close>.
\<close>

record badge =
  scrolled :: real
  rafPending :: bool

datatype badge_event = Scroll | Resize | AnimationFrame host

text \<open>The effect calls \<^verbatim>\<open>onScroll\<close> once when the badge mounts.\<close>

definition ScrollBadge_onScroll :: "badge \<Rightarrow> badge" where
  \<comment> \<open>\<^verbatim>\<open>if (rafId == null) rafId = requestAnimationFrame(update)\<close>\<close>
  "ScrollBadge_onScroll b = (if rafPending b then b else b\<lparr>rafPending := True\<rparr>)"

definition ScrollBadge_update :: "host \<Rightarrow> badge \<Rightarrow> badge" where
  \<comment> \<open>\<^verbatim>\<open>setScrolled(norm); rafId = null\<close>\<close>
  "ScrollBadge_update h b = \<lparr>scrolled = windowNorm h, rafPending = False\<rparr>"

definition badge_init :: badge where
  "badge_init = ScrollBadge_onScroll \<lparr>scrolled = 0, rafPending = False\<rparr>"

text \<open>The browser runs \<^verbatim>\<open>update\<close> in an animation frame only if one was requested.\<close>

fun badge_step :: "badge \<Rightarrow> badge_event \<Rightarrow> badge" where
  "badge_step b Scroll = ScrollBadge_onScroll b"
| "badge_step b Resize = ScrollBadge_onScroll b"
| "badge_step b (AnimationFrame h) = (if rafPending b then ScrollBadge_update h b else b)"

definition badge_percent :: "badge \<Rightarrow> int" where
  "badge_percent b = Math_round (scrolled b * 100)"

section \<open>Vectors, waypoints and the bounding box\<close>

datatype Vector3 = Vector3 (vec_x: real) (vec_y: real) (vec_z: real)

text \<open>A camera waypoint: an element of \<^verbatim>\<open>sectionTargets\<close>.\<close>

record waypoint =
  camY :: real
  camZ :: real
  lookAt :: Vector3

text \<open>
  The type \<^verbatim>\<open>BBox\<close>. The fields \<^verbatim>\<open>min\<close>, \<^verbatim>\<open>max\<close>, \<^verbatim>\<open>center\<close>, \<^verbatim>\<open>size\<close> and
  \<^verbatim>\<open>height\<close> carry a prefix, their names being taken in HOL. The box is filled by
  \<^verbatim>\<open>THREE.Box3\<close> of the rendering engine, which is not part of this program: here it is
  given.
\<close>

record BBox =
  bb_min :: Vector3
  bb_max :: Vector3
  bb_center :: Vector3
  bb_size :: Vector3
  bb_height :: real

text \<open>
  The memoised \<^verbatim>\<open>sectionTargets\<close> of \<^verbatim>\<open>SceneWithAutoTargets\<close>: \<^verbatim>\<open>null\<close> without a
  box, four waypoints (head, torso, arms, legs) with one.
\<close>

definition sectionTargets :: "BBox option \<Rightarrow> waypoint list option" where
  "sectionTargets bbox =
     (case bbox of
        None \<Rightarrow> None
      | Some b \<Rightarrow>
          (let topY = vec_y (bb_max b);
               bottomY = vec_y (bb_min b);
               centerY = vec_y (bb_center b);
               height = num_or (Some (bb_height b)) (max 1 (topY - bottomY));
               baseZ = max 3.0 (height * 3.0);
               headCamY = topY + height * 0.15;
               headLookAt = Vector3 0 (topY - height * 0.08) 0;
               torsoCamY = centerY + height * 0.15;
               torsoLookAt = Vector3 0 (centerY + height * 0.02) 0;
               armsCamY = centerY - height * 0.2;
               armsLookAt = Vector3 0 (centerY - height * 0.25) 0;
               legsCamY = bottomY + height * 0.25;
               legsLookAt = Vector3 0 (bottomY + height * 0.15) 0
           in Some
             [\<lparr>camY = headCamY + MODEL_Y_OFFSET, camZ = baseZ * 0.9, lookAt = headLookAt\<rparr>,
              \<lparr>camY = torsoCamY + MODEL_Y_OFFSET, camZ = baseZ * 0.75, lookAt = torsoLookAt\<rparr>,
              \<lparr>camY = armsCamY + MODEL_Y_OFFSET, camZ = baseZ * 0.65, lookAt = armsLookAt\<rparr>,
              \<lparr>camY = legsCamY + MODEL_Y_OFFSET, camZ = baseZ * 0.55, lookAt = legsLookAt\<rparr>]))"

section \<open>The camera rig\<close>

text \<open>
  Reading a property of \<^verbatim>\<open>undefined\<close> throws a \<^verbatim>\<open>TypeError\<close>; it is the one way a
  frame callback of this file can fail.
\<close>

datatype error = TypeError

text \<open>\<^verbatim>\<open>xs[i]\<close> for an integral index: \<^verbatim>\<open>undefined\<close> out of range.\<close>

definition js_index :: "'a list \<Rightarrow> int \<Rightarrow> 'a option" where
  "js_index xs i = (if 0 \<le> i \<and> i < int (length xs) then Some (xs ! nat i) else None)"

text \<open>
  The camera: its position, and the point it was last turned to by \<^verbatim>\<open>camera.lookAt\<close>.
\<close>

record camera =
  position_x :: real
  position_y :: real
  position_z :: real
  look :: Vector3

text \<open>The four refs of \<^verbatim>\<open>CameraRig\<close>, and the camera of \<^verbatim>\<open>useThree\<close>.\<close>

record rig =
  lastDrei :: "real option"
  lastChangeTime :: real
  useWindowFallback :: bool
  initialZ :: "real option"
  cam :: camera

text \<open>
  What one frame reads: the offset of the scroll controls (absent when it is not a
  number), \<^verbatim>\<open>performance.now()\<close>, the window and document, and the prop
  \<^verbatim>\<open>sectionTargets\<close>.
\<close>

record frame =
  dreiOffset :: "real option"
  now :: real
  win :: host
  sectionTargets_prop :: "waypoint list option"

definition CameraRig_init :: "real \<Rightarrow> camera \<Rightarrow> rig" where
  "CameraRig_init t0 c =
     \<lparr>lastDrei = None, lastChangeTime = t0, useWindowFallback = False, initialZ = None,
      cam = c\<rparr>"

text \<open>
  Which scroll measurement to trust:
  \<^verbatim>\<open>
  if (lastDrei.current === null) {
    lastDrei.current = dreiOffset; lastChangeTime.current = now;
  } else {
    if (Math.abs(dreiOffset - lastDrei.current) > 1e-5) {
      useWindowFallback.current = false;
      lastDrei.current = dreiOffset; lastChangeTime.current = now;
    } else {
      if (now - lastChangeTime.current > 300 && Math.abs(dreiOffset) < 1e-6) {
        useWindowFallback.current = true;
      }
    }
  }
  \<close>
\<close>

definition track_scroll :: "real \<Rightarrow> real \<Rightarrow> rig \<Rightarrow> rig" where
  "track_scroll d n r =
     (case lastDrei r of
        None \<Rightarrow> r\<lparr>lastDrei := Some d, lastChangeTime := n\<rparr>
      | Some l \<Rightarrow>
          if \<bar>d - l\<bar> > 0.00001
          then r\<lparr>useWindowFallback := False, lastDrei := Some d, lastChangeTime := n\<rparr>
          else if n - lastChangeTime r > 300 \<and> \<bar>d\<bar> < 0.000001
          then r\<lparr>useWindowFallback := True\<rparr>
          else r)"

definition read_dreiOffset :: "frame \<Rightarrow> real" where
  \<comment> \<open>\<^verbatim>\<open>typeof dreiScroll?.offset === "number" ? dreiScroll.offset : 0\<close>\<close>
  "read_dreiOffset f = (case dreiOffset f of None \<Rightarrow> 0 | Some v \<Rightarrow> v)"

text \<open>The refs after the first half of the frame callback (everything before \<^verbatim>\<open>let t\<close>).\<close>

definition frame_prepare :: "frame \<Rightarrow> rig \<Rightarrow> rig" where
  "frame_prepare f r =
     track_scroll (read_dreiOffset f) (now f)
       (if initialZ r = None then r\<lparr>initialZ := Some (position_z (cam r))\<rparr> else r)"

definition scroll_t :: "frame \<Rightarrow> rig \<Rightarrow> real" where
  "scroll_t f r = (if useWindowFallback r then windowNorm (win f) else read_dreiOffset f)"

definition fallbackTargets :: "real option \<Rightarrow> waypoint list" where
  "fallbackTargets iz =
     (let z = (case iz of None \<Rightarrow> 4 | Some v \<Rightarrow> v)
      in [\<lparr>camY = 1.6, camZ = z, lookAt = Vector3 0 0.9 0\<rparr>,
          \<lparr>camY = 0.6, camZ = z, lookAt = Vector3 0 0.2 0\<rparr>,
          \<lparr>camY = - 0.6, camZ = z, lookAt = Vector3 0 (- 0.6) 0\<rparr>,
          \<lparr>camY = - 2.0, camZ = z, lookAt = Vector3 0 (- 1.8) 0\<rparr>])"

definition frame_targets :: "frame \<Rightarrow> rig \<Rightarrow> waypoint list" where
  \<comment> \<open>\<^verbatim>\<open>sectionTargets ?? [ ... ]\<close>\<close>
  "frame_targets f r =
     (case sectionTargets_prop f of None \<Rightarrow> fallbackTargets (initialZ r) | Some ts \<Rightarrow> ts)"

text \<open>
  The interpolation between waypoints:
  \<^verbatim>\<open>
  const segments = Math.max(1, targets.length - 1);
  const scaled = Math.min(Math.max(t * segments, 0), segments);
  const i = Math.floor(scaled);
  const localT = scaled - i;
  const a = targets[i];
  const b = targets[Math.min(i + 1, targets.length - 1)];
  const targetY = a.camY + (b.camY - a.camY) * localT;
  const lx = a.lookAt.x + (b.lookAt.x - a.lookAt.x) * localT;  // ly, lz alike
  \<close>
  The result is \<^verbatim>\<open>targetY\<close> and the point \<^verbatim>\<open>(lx, ly, lz)\<close>.
\<close>

definition blend :: "waypoint list \<Rightarrow> real \<Rightarrow> error + real \<times> Vector3" where
  "blend targets t =
     (let segments = max 1 (int (length targets) - 1);
          scaled = min (max (t * real_of_int segments) 0) (real_of_int segments);
          i = \<lfloor>scaled\<rfloor>;
          localT = scaled - real_of_int i
      in case js_index targets i of
           None \<Rightarrow> Inl TypeError
         | Some a \<Rightarrow>
             (case js_index targets (min (i + 1) (int (length targets) - 1)) of
                None \<Rightarrow> Inl TypeError
              | Some b \<Rightarrow>
                  Inr (camY a + (camY b - camY a) * localT,
                       Vector3
                         (vec_x (lookAt a) + (vec_x (lookAt b) - vec_x (lookAt a)) * localT)
                         (vec_y (lookAt a) + (vec_y (lookAt b) - vec_y (lookAt a)) * localT)
                         (vec_z (lookAt a) + (vec_z (lookAt b) - vec_z (lookAt a)) * localT))))"

definition frame_target :: "frame \<Rightarrow> rig \<Rightarrow> error + real \<times> Vector3" where
  "frame_target f r = blend (frame_targets f r) (scroll_t f r)"

text \<open>
  The end of the callback:
  \<^verbatim>\<open>
  const targetZ = initialZ.current ?? camera.position.z;
  camera.position.y += (targetY - camera.position.y) * 0.12;
  camera.position.z = targetZ;
  camera.lookAt(lx, ly, lz);
  \<close>
  The update of the height is evaluated exactly here; \<open>ease\<close>, further down, is the same
  update with the rounding of doubles.
\<close>

definition move_camera :: "real \<times> Vector3 \<Rightarrow> rig \<Rightarrow> rig" where
  "move_camera tg r =
     (let targetZ = (case initialZ r of None \<Rightarrow> position_z (cam r) | Some z \<Rightarrow> z);
          c = cam r
      in r\<lparr>cam := c\<lparr>position_y := position_y c + (fst tg - position_y c) * 0.12,
                     position_z := targetZ,
                     look := snd tg\<rparr>\<rparr>)"

definition CameraRig_frame :: "frame \<Rightarrow> rig \<Rightarrow> error + rig" where
  "CameraRig_frame f r0 =
     (let r = frame_prepare f r0
      in case frame_target f r of
           Inl e \<Rightarrow> Inl e
         | Inr tg \<Rightarrow> Inr (move_camera tg r))"

text \<open>A sequence of frames; it stops at the first one that throws.\<close>

fun CameraRig_run :: "frame list \<Rightarrow> rig \<Rightarrow> error + rig" where
  "CameraRig_run [] r = Inr r"
| "CameraRig_run (f # fs) r =
     (case CameraRig_frame f r of Inl e \<Rightarrow> Inl e | Inr r' \<Rightarrow> CameraRig_run fs r')"

text \<open>
  The fallback rule in the words of the specification: the offset \<open>d\<close> of this frame has
  stayed within \<open>1e-5\<close> of the recorded one \<open>l\<close>, and more than 300 ms have passed since
  the time \<open>since\<close> of the last change.
\<close>

definition spec_idle_timeout :: "real \<Rightarrow> real \<Rightarrow> real \<Rightarrow> real \<Rightarrow> bool" where
  "spec_idle_timeout l d since n = (\<bar>d - l\<bar> \<le> 0.00001 \<and> n - since > 300)"

text \<open>The interpolation in the words of the specification.\<close>

definition lerp :: "real \<Rightarrow> real \<Rightarrow> real \<Rightarrow> real" where
  "lerp a b u = a + (b - a) * u"

definition spec_blend :: "waypoint list \<Rightarrow> real \<Rightarrow> real \<times> Vector3" where
  "spec_blend ws t =
     (let s = clamp (t * 3) 0 3;
          i = nat \<lfloor>s\<rfloor>;
          u = s - real i;
          a = ws ! i;
          b = ws ! min (i + 1) 3
      in (lerp (camY a) (camY b) u,
          Vector3 (lerp (vec_x (lookAt a)) (vec_x (lookAt b)) u)
                  (lerp (vec_y (lookAt a)) (vec_y (lookAt b)) u)
                  (lerp (vec_z (lookAt a)) (vec_z (lookAt b)) u)))"

section \<open>The model instance\<close>

definition ROTATION_FIX :: "real list" where
  "ROTATION_FIX = [0, 0, 0]"

text \<open>The group holding the model: the three transform components the frame writes.\<close>

record group3d =
  rotation_x :: real
  rotation_y :: real
  group_position_y :: real

text \<open>The smoothing refs of \<^verbatim>\<open>ModelInstance\<close> and its group ref.\<close>

record model =
  rotYRef :: real
  rotXRef :: real
  posYRef :: real
  groupRef :: "group3d option"

definition ModelInstance_init :: model where
  "ModelInstance_init =
     \<lparr>rotYRef = 0, rotXRef = 0, posYRef = MODEL_Y_OFFSET,
      groupRef = Some \<lparr>rotation_x = ROTATION_FIX ! 0, rotation_y = ROTATION_FIX ! 1,
                       group_position_y = MODEL_Y_OFFSET\<rparr>\<rparr>"

definition targetBaseRotY :: "real \<Rightarrow> real" where
  "targetBaseRotY t = (1 - t * ROTATION_INTENSITY) * Math_PI * 0.02"

definition targetBaseRotX :: "real \<Rightarrow> real" where
  "targetBaseRotX t = (t - 0.5) * 0.06"

definition targetY :: "real \<Rightarrow> real" where
  "targetY t = MODEL_Y_OFFSET + (0.5 - t) * VERTICAL_BOB"

definition pointerHoverY :: "real \<Rightarrow> real" where
  "pointerHoverY px = px * HOVER_POINTER_ROT_MAX"

definition targetCombinedY :: "real \<Rightarrow> real \<Rightarrow> real \<Rightarrow> real" where
  "targetCombinedY t px drag = targetBaseRotY t + pointerHoverY px + drag"

text \<open>
  The three targets of a frame, for the scroll offset (\<^verbatim>\<open>scroll.offset ?? 0\<close>) and the
  props \<^verbatim>\<open>pointerX\<close> and \<^verbatim>\<open>dragRotation\<close>: \<^verbatim>\<open>targetCombinedY\<close>,
  \<^verbatim>\<open>targetBaseRotX\<close> and \<^verbatim>\<open>targetY\<close>, in this order.
\<close>

definition ModelInstance_targets :: "real option \<Rightarrow> real \<Rightarrow> real \<Rightarrow> real \<times> real \<times> real" where
  "ModelInstance_targets offset px drag =
     (let t = (case offset of None \<Rightarrow> 0 | Some v \<Rightarrow> v)
      in (targetCombinedY t px drag, targetBaseRotX t, targetY t))"

text \<open>
  The frame callback of \<^verbatim>\<open>ModelInstance\<close>. It returns at once while the group is not
  mounted; otherwise
  \<^verbatim>\<open>
  rotYRef.current += (targetCombinedY - rotYRef.current) * 0.12;
  rotXRef.current += (targetBaseRotX - rotXRef.current) * 0.06;
  posYRef.current += (targetY - posYRef.current) * 0.08;
  groupRef.current.rotation.y = ROTATION_FIX[1] + rotYRef.current;
  groupRef.current.rotation.x = ROTATION_FIX[0] + rotXRef.current;
  groupRef.current.position.y = posYRef.current;
  \<close>
  The rotation it hands to \<^verbatim>\<open>onApplyRotation\<close> is \<^verbatim>\<open>rotation.y\<close> of the group it
  leaves. The three updates are evaluated exactly here; \<open>ease\<close>, further down, is the
  same update with the rounding of doubles.
\<close>

definition ModelInstance_frame :: "real option \<Rightarrow> real \<Rightarrow> real \<Rightarrow> model \<Rightarrow> model" where
  "ModelInstance_frame offset px drag m =
     (case groupRef m of
        None \<Rightarrow> m
      | Some g \<Rightarrow>
          (case ModelInstance_targets offset px drag of
             (tgCombinedY, tgBaseRotX, tgY) \<Rightarrow>
               (let rotY = rotYRef m + (tgCombinedY - rotYRef m) * 0.12;
                    rotX = rotXRef m + (tgBaseRotX - rotXRef m) * 0.06;
                    posY = posYRef m + (tgY - posYRef m) * 0.08
                in \<lparr>rotYRef = rotY, rotXRef = rotX, posYRef = posY,
                    groupRef = Some \<lparr>rotation_x = ROTATION_FIX ! 0 + rotX,
                                     rotation_y = ROTATION_FIX ! 1 + rotY,
                                     group_position_y = posY\<rparr>\<rparr>)))"

text \<open>
  The earlier revision has no \<^verbatim>\<open>dragRotation\<close> and reads \<^verbatim>\<open>scroll.offset\<close> as it is;
  its constant \<^verbatim>\<open>POINTER_ROT_MAX\<close> has the value of \<^verbatim>\<open>HOVER_POINTER_ROT_MAX\<close>.
\<close>

definition ModelInstance_frame_v1 :: "real \<Rightarrow> real \<Rightarrow> model \<Rightarrow> model" where
  "ModelInstance_frame_v1 t px m =
     (case groupRef m of
        None \<Rightarrow> m
      | Some g \<Rightarrow>
          (let targetCombinedY_v1 = targetBaseRotY t + px * HOVER_POINTER_ROT_MAX;
               rotY = rotYRef m + (targetCombinedY_v1 - rotYRef m) * 0.12;
               rotX = rotXRef m + (targetBaseRotX t - rotXRef m) * 0.06;
               posY = posYRef m + (targetY t - posYRef m) * 0.08
           in \<lparr>rotYRef = rotY, rotXRef = rotX, posYRef = posY,
               groupRef = Some \<lparr>rotation_x = ROTATION_FIX ! 0 + rotX,
                                rotation_y = ROTATION_FIX ! 1 + rotY,
                                group_position_y = posY\<rparr>\<rparr>))"

section \<open>Pointer, touch and drag handlers of the page\<close>

text \<open>
  The state of \<^verbatim>\<open>Page\<close> the handlers touch: the hover position, the drag accumulator,
  the drag flag and the last pointer abscissa (\<^verbatim>\<open>null\<close> when there is none).
\<close>

record page =
  pointerX :: real
  dragRotation :: real
  draggingRef :: bool
  lastXRef :: "real option"

definition Page_init :: page where
  "Page_init = \<lparr>pointerX = 0, dragRotation = 0, draggingRef = False, lastXRef = None\<rparr>"

text \<open>
  The events the page listens to. A mouse or pointer event carries \<^verbatim>\<open>clientX\<close>; a touch
  event carries the abscissas of \<^verbatim>\<open>e.touches\<close>, in order (\<open>None\<close> when the event has no
  such list).
\<close>

datatype event =
  MouseMove real
| TouchMove "real list option"
| PointerDown real
| PointerMove real
| PointerUp
| PointerCancel
| TouchStart "real list option"
| TouchEnd

definition read_w :: "host \<Rightarrow> real" where
  \<comment> \<open>\<^verbatim>\<open>window.innerWidth || 1\<close>\<close>
  "read_w h = num_or (innerWidth h) 1"

text \<open>
  \<^verbatim>\<open>handleMouseMove\<close>, for \<^verbatim>\<open>e.clientX\<close>:
  \<^verbatim>\<open>
  const w = window.innerWidth || 1;
  const nx = Math.min(Math.max((x / w) * 2 - 1, -1), 1);
  setPointerX(nx);
  if (draggingRef.current && lastXRef.current !== null) {
    const dx = (x - lastXRef.current) / w;
    lastXRef.current = x;
    setDragRotation((r) => r + dx * DRAG_SENSITIVITY);
  }
  \<close>
\<close>

definition handleMouseMove :: "host \<Rightarrow> real \<Rightarrow> page \<Rightarrow> page" where
  "handleMouseMove h x p =
     (let w = read_w h;
          nx = min (max ((x / w) * 2 - 1) (- 1)) 1;
          p1 = p\<lparr>pointerX := nx\<rparr>
      in case lastXRef p of
           None \<Rightarrow> p1
         | Some lx \<Rightarrow>
             if draggingRef p
             then p1\<lparr>lastXRef := Some x,
                     dragRotation := dragRotation p + ((x - lx) / w) * DRAG_SENSITIVITY\<rparr>
             else p1)"

text \<open>
  \<^verbatim>\<open>handleTouchMoveHover\<close> returns at once when \<^verbatim>\<open>e.touches\<close> is missing or empty;
  otherwise it does to the abscissa of the first touch what \<^verbatim>\<open>handleMouseMove\<close> does to
  that of the mouse, line for line.
\<close>

definition handleTouchMoveHover :: "host \<Rightarrow> real list option \<Rightarrow> page \<Rightarrow> page" where
  "handleTouchMoveHover h touches p =
     (case touches of
        None \<Rightarrow> p
      | Some [] \<Rightarrow> p
      | Some (x # xs) \<Rightarrow> handleMouseMove h x p)"

definition onPointerDown :: "real \<Rightarrow> page \<Rightarrow> page" where
  "onPointerDown x p = p\<lparr>draggingRef := True, lastXRef := Some x\<rparr>"

definition onPointerMove :: "host \<Rightarrow> real \<Rightarrow> page \<Rightarrow> page" where
  "onPointerMove h x p =
     (if \<not> draggingRef p then p
      else
        (let w = read_w h;
             lx = (case lastXRef p of None \<Rightarrow> x | Some l \<Rightarrow> l)
         in p\<lparr>lastXRef := Some x,
               dragRotation := dragRotation p + ((x - lx) / w) * DRAG_SENSITIVITY\<rparr>))"

text \<open>\<^verbatim>\<open>onPointerUp\<close> serves \<^verbatim>\<open>pointerup\<close> and \<^verbatim>\<open>pointercancel\<close>.\<close>

definition onPointerUp :: "page \<Rightarrow> page" where
  "onPointerUp p = p\<lparr>draggingRef := False, lastXRef := None\<rparr>"

definition onTouchStart :: "real list option \<Rightarrow> page \<Rightarrow> page" where
  "onTouchStart touches p =
     (case touches of
        None \<Rightarrow> p
      | Some [] \<Rightarrow> p
      | Some (x # xs) \<Rightarrow> p\<lparr>draggingRef := True, lastXRef := Some x\<rparr>)"

definition onTouchEnd :: "page \<Rightarrow> page" where
  "onTouchEnd p = p\<lparr>draggingRef := False, lastXRef := None\<rparr>"

text \<open>The listeners the two effects of \<^verbatim>\<open>Page\<close> register on \<^verbatim>\<open>window\<close>.\<close>

fun handle :: "host \<Rightarrow> event \<Rightarrow> page \<Rightarrow> page" where
  "handle h (MouseMove x) p = handleMouseMove h x p"
| "handle h (TouchMove touches) p = handleTouchMoveHover h touches p"
| "handle h (PointerDown x) p = onPointerDown x p"
| "handle h (PointerMove x) p = onPointerMove h x p"
| "handle h PointerUp p = onPointerUp p"
| "handle h PointerCancel p = onPointerUp p"
| "handle h (TouchStart touches) p = onTouchStart touches p"
| "handle h TouchEnd p = onTouchEnd p"

definition is_move :: "event \<Rightarrow> bool" where
  "is_move e = (case e of MouseMove x \<Rightarrow> True | TouchMove ts \<Rightarrow> True | PointerMove x \<Rightarrow> True
                | _ \<Rightarrow> False)"

text \<open>
  A sequence of events, each with the window it finds. A touch event that a browser
  dispatches lists in \<^verbatim>\<open>e.touches\<close> the touches on the surface, on \<^verbatim>\<open>touchstart\<close> the
  touch that started among them; the handlers also guard against a missing or empty list.
\<close>

fun Page_run :: "(host \<times> event) list \<Rightarrow> page \<Rightarrow> page" where
  "Page_run [] p = p"
| "Page_run ((h, e) # evs) p = Page_run evs (handle h e p)"

section \<open>The scroll offset as a JavaScript number\<close>

text \<open>
  The offset that \<^verbatim>\<open>useScroll\<close> hands to the camera rig is a value of another library.
  The test \<^verbatim>\<open>typeof dreiScroll?.offset === "number"\<close> lets every number through, also
  \<^verbatim>\<open>NaN\<close> and the two infinities. This section follows the frame callback of
  \<^verbatim>\<open>CameraRig\<close> once more with such an offset; the readings of the window, the clock,
  the camera and the waypoints stay real numbers.
\<close>

datatype num = NaN | NegInf | Fin real | PosInf


fun js_times :: "num \<Rightarrow> num \<Rightarrow> num" where
  "js_times NaN b = NaN"
| "js_times a NaN = NaN"
| "js_times (Fin a) (Fin b) = Fin (a * b)"
| "js_times (Fin a) PosInf = (if a = 0 then NaN else if 0 < a then PosInf else NegInf)"
| "js_times (Fin a) NegInf = (if a = 0 then NaN else if 0 < a then NegInf else PosInf)"
| "js_times PosInf (Fin b) = (if b = 0 then NaN else if 0 < b then PosInf else NegInf)"
| "js_times NegInf (Fin b) = (if b = 0 then NaN else if 0 < b then NegInf else PosInf)"
| "js_times PosInf PosInf = PosInf"
| "js_times PosInf NegInf = NegInf"
| "js_times NegInf PosInf = NegInf"
| "js_times NegInf NegInf = PosInf"


fun js_less :: "num \<Rightarrow> num \<Rightarrow> bool" where
  "js_less NaN b = False"
| "js_less a NaN = False"
| "js_less (Fin a) (Fin b) = (a < b)"
| "js_less a NegInf = False"
| "js_less PosInf b = False"
| "js_less NegInf b = True"
| "js_less a PosInf = True"

fun js_max :: "num \<Rightarrow> num \<Rightarrow> num" where
  "js_max NaN b = NaN"
| "js_max a NaN = NaN"
| "js_max a b = (if js_less a b then b else a)"

fun js_min :: "num \<Rightarrow> num \<Rightarrow> num" where
  "js_min NaN b = NaN"
| "js_min a NaN = NaN"
| "js_min a b = (if js_less b a then b else a)"









text \<open>
  The interpolation. \<^verbatim>\<open>scaled\<close> is \<^verbatim>\<open>NaN\<close> when \<^verbatim>\<open>t\<close> is; then so is the index
  \<^verbatim>\<open>Math.floor(scaled)\<close>, \<^verbatim>\<open>targets[i]\<close> is \<^verbatim>\<open>undefined\<close>, and \<^verbatim>\<open>a.camY\<close> throws. An
  infinite index finds \<^verbatim>\<open>undefined\<close> as well.
\<close>

definition blend_js :: "waypoint list \<Rightarrow> num \<Rightarrow> error + real \<times> Vector3" where
  "blend_js targets t =
     (let segments = max 1 (int (length targets) - 1)
      in case js_min (js_max (js_times t (Fin (real_of_int segments))) (Fin 0))
                (Fin (real_of_int segments)) of
           Fin scaled \<Rightarrow>
             (let i = \<lfloor>scaled\<rfloor>;
                  localT = scaled - real_of_int i
              in case js_index targets i of
                   None \<Rightarrow> Inl TypeError
                 | Some a \<Rightarrow>
                     (case js_index targets (min (i + 1) (int (length targets) - 1)) of
                        None \<Rightarrow> Inl TypeError
                      | Some b \<Rightarrow>
                          Inr (camY a + (camY b - camY a) * localT,
                               Vector3
                                 (vec_x (lookAt a) + (vec_x (lookAt b) - vec_x (lookAt a)) * localT)
                                 (vec_y (lookAt a) + (vec_y (lookAt b) - vec_y (lookAt a)) * localT)
                                 (vec_z (lookAt a) + (vec_z (lookAt b) - vec_z (lookAt a)) * localT))))
         | _ \<Rightarrow> Inl TypeError)"





section \<open>What the canvas shows\<close>








section \<open>The easing updates in double arithmetic\<close>

text \<open>
  A JavaScript \<^verbatim>\<open>number\<close> is an IEEE 754 double, and every arithmetic operation rounds
  its exact result to the nearest double, ties to the even significand. The sections
  above leave the rounding out. For the easing updates it matters, so they are followed
  here once more with it.

  \<open>round_even\<close> is the nearest integer, ties to even.
\<close>

definition round_even :: "real \<Rightarrow> int" where
  "round_even r =
     (let n = \<lfloor>r\<rfloor>; d = r - of_int n
      in if d < 1 / 2 then n else if 1 / 2 < d then n + 1 else if even n then n else n + 1)"

text \<open>
  The binary exponent of a positive number \<open>m\<close>, that is the \<open>e\<close> with
  \<open>2 powi e \<le> m < 2 powi (e + 1)\<close>, from the bit length of an integer; the exponent of
  a double, which is at least \<open>- 1022\<close> (the doubles below \<open>2 powi (- 1022)\<close> are
  subnormal); and the spacing of the doubles around \<open>x\<close>, 52 binary places below its
  exponent.
\<close>

definition ilog2 :: "real \<Rightarrow> int" where
  "ilog2 m = (if 1 \<le> m then bitlen \<lfloor>m\<rfloor> - 1 else - bitlen (\<lceil>1 / m\<rceil> - 1))"

definition expo :: "real \<Rightarrow> int" where
  "expo x = max (ilog2 \<bar>x\<bar>) (- 1022)"

definition quantum :: "real \<Rightarrow> real" where
  "quantum x = 2 powi (expo x - 52)"

text \<open>
  The double nearest to a real number: sign and magnitude, the magnitude rounded to a
  multiple of the spacing. Results of magnitude \<open>2 ^ 1024\<close> or more, which IEEE arithmetic
  replaces by an infinity, are outside of this model; the angles and heights of the page
  are far below.
\<close>

definition fl :: "real \<Rightarrow> real" where
  "fl x = (if x = 0 then 0 else sgn x * (of_int (round_even (\<bar>x\<bar> / quantum x)) * quantum x))"

definition is_double :: "real \<Rightarrow> bool" where
  "is_double x = (fl x = x \<and> \<bar>x\<bar> < 2 ^ 1024)"

text \<open>
  The four easing updates of the page,
  \<^verbatim>\<open>
  rotYRef.current += (targetCombinedY - rotYRef.current) * 0.12;
  rotXRef.current += (targetBaseRotX - rotXRef.current) * 0.06;
  posYRef.current += (targetY - posYRef.current) * 0.08;
  camera.position.y += (targetY - camera.position.y) * 0.12;
  \<close>
  are each \<^verbatim>\<open>v += (target - v) * a\<close>: a difference, a product and a sum, each rounded. The
  literal \<^verbatim>\<open>a\<close> denotes the double nearest to the decimal, \<open>fl 0.12\<close>, \<open>fl 0.06\<close> or
  \<open>fl 0.08\<close>.
\<close>

definition ease :: "real \<Rightarrow> real \<Rightarrow> real \<Rightarrow> real" where
  "ease a target v = fl (v + fl (fl (target - v) * a))"

text \<open>
  The same update without rounding, as \<open>ModelInstance_frame\<close> and \<open>move_camera\<close> have it,
  and a bound for the difference of the two.
\<close>

definition ease_exact :: "real \<Rightarrow> real \<Rightarrow> real \<Rightarrow> real" where
  "ease_exact a target v = v + (target - v) * a"

definition ease_error :: "real \<Rightarrow> real \<Rightarrow> real" where
  "ease_error target v = max \<bar>v\<bar> \<bar>target\<bar> / 2 ^ 51 + 1 / 2 ^ 1073"

section \<open>Sample inputs\<close>

text \<open>
  The camera as the canvas creates it (\<^verbatim>\<open>position: [0, 1.6, 4]\<close>), a window of 1000 by
  1000 pixels over a document of 4000 scrolled by 1500, and a frame 16 ms after the
  rig was created, the scroll controls halfway, no bounding box yet.
\<close>

definition sample_camera :: camera where
  "sample_camera = \<lparr>position_x = 0, position_y = 8 / 5, position_z = 4, look = Vector3 0 0 0\<rparr>"

definition sample_host :: host where
  "sample_host = \<lparr>scrollY = Some 1500, pageYOffset = Some 1500, docScrollHeight = Some 4000,
     bodyScrollHeight = Some 4000, innerHeight = Some 1000, innerWidth = Some 1000\<rparr>"

definition sample_frame :: frame where
  "sample_frame =
     \<lparr>dreiOffset = Some (1 / 2), now = 16, win = sample_host, sectionTargets_prop = None\<rparr>"

text \<open>
  A bounding box two units high standing on the ground plane, and a later frame that has
  it, with the scroll controls at the end.
\<close>

definition sample_bbox :: BBox where
  "sample_bbox =
     \<lparr>bb_min = Vector3 (- (1 / 2)) 0 (- (3 / 10)), bb_max = Vector3 (1 / 2) 2 (3 / 10),
      bb_center = Vector3 0 1 0, bb_size = Vector3 1 2 (3 / 5), bb_height = 2\<rparr>"

definition sample_frame_bbox :: frame where
  "sample_frame_bbox =
     \<lparr>dreiOffset = Some 1, now = 32, win = sample_host,
      sectionTargets_prop = sectionTargets (Some sample_bbox)\<rparr>"



section \<open>Properties\<close>

subsection \<open>Properties of the normalisation\<close>

lemma maxScroll_ge_1: "1 \<le> maxScroll h"
  by (simp add: maxScroll_def)

lemma windowNorm_bounds: "0 \<le> windowNorm h \<and> windowNorm h \<le> 1"
  by (simp add: windowNorm_def)

lemma num_or_default: "num_or a d = or_default a d"
  by (cases a) (simp_all add: num_or_def or_default_def)

lemma min_max_clamp: "min (max v 0) 1 = clamp v 0 1"
  by (simp add: clamp_def min_def max_def)

lemma badge_run_bounds:
  "0 \<le> scrolled b \<Longrightarrow> scrolled b \<le> 1 \<Longrightarrow>
   0 \<le> scrolled (foldl badge_step b evs) \<and> scrolled (foldl badge_step b evs) \<le> 1"
proof (induction evs arbitrary: b)
  case Nil
  then show ?case by simp
next
  case (Cons ev evs)
  have "0 \<le> scrolled (badge_step b ev) \<and> scrolled (badge_step b ev) \<le> 1"
    using Cons.prems windowNorm_bounds
    by (cases ev) (simp_all add: ScrollBadge_onScroll_def ScrollBadge_update_def)
  then show ?case
    using Cons.IH by simp
qed

lemma Math_round_percent:
  assumes "0 \<le> v" "v \<le> 1"
  shows "0 \<le> Math_round (v * 100) \<and> Math_round (v * 100) \<le> 100"
proof -
  have "(0::real) \<le> v * 100 + 1 / 2"
    using assms by simp
  then have lo: "0 \<le> Math_round (v * 100)"
    unfolding Math_round_def by (simp only: zero_le_floor)
  have "v * 100 + 1 / 2 < 101"
    using assms by simp
  then have "Math_round (v * 100) < 101"
    unfolding Math_round_def by (simp add: floor_less_iff)
  with lo show ?thesis by simp
qed

text \<open>
  Claim C8. The scroll-offset normalisation is total and bounded: whatever the host
  reports (each reading present, zero or missing, the scroll position of either sign),
  the divisor is at least 1, the normalised fraction is the clamp to the unit interval of
  the scroll position over \<open>max 1 (docH - winH)\<close> with the heights defaulted to 1 when
  zero or missing, it lies between 0 and 1, and after any sequence of scroll events and
  animation frames the badge shows an integer percentage between 0 and 100.
\<close>

theorem C8_scroll_normalisation_bounded:
  "1 \<le> maxScroll h
   \<and> windowNorm h =
       spec_scroll_fraction (or_default (scrollY h) (or_default (pageYOffset h) 0))
         (or_default (docScrollHeight h) (or_default (bodyScrollHeight h) 1))
         (or_default (innerHeight h) 1)
   \<and> 0 \<le> windowNorm h \<and> windowNorm h \<le> 1
   \<and> 0 \<le> badge_percent (foldl badge_step badge_init evs)
   \<and> badge_percent (foldl badge_step badge_init evs) \<le> 100"
proof -
  have eq: "windowNorm h =
       spec_scroll_fraction (or_default (scrollY h) (or_default (pageYOffset h) 0))
         (or_default (docScrollHeight h) (or_default (bodyScrollHeight h) 1))
         (or_default (innerHeight h) 1)"
    by (simp add: windowNorm_def spec_scroll_fraction_def min_max_clamp maxScroll_def
        read_scrollY_def read_docH_def read_winH_def num_or_default)
  have "0 \<le> scrolled badge_init" "scrolled badge_init \<le> 1"
    by (simp_all add: badge_init_def ScrollBadge_onScroll_def)
  then have "0 \<le> scrolled (foldl badge_step badge_init evs)
      \<and> scrolled (foldl badge_step badge_init evs) \<le> 1"
    by (rule badge_run_bounds)
  then have pc: "0 \<le> badge_percent (foldl badge_step badge_init evs)
      \<and> badge_percent (foldl badge_step badge_init evs) \<le> 100"
    unfolding badge_percent_def using Math_round_percent by blast
  show ?thesis
    using maxScroll_ge_1 eq windowNorm_bounds pc by blast
qed

subsection \<open>The waypoint interpolation\<close>

lemma min_max_clamp3: "min (max v 0) 3 = clamp v 0 3"
  by (simp add: clamp_def min_def max_def)

lemma clamp3_bounds: "0 \<le> clamp v 0 3" "clamp v 0 3 \<le> 3"
  by (simp_all add: clamp_def)

lemma blend_four:
  assumes len: "length ws = 4"
  shows "blend ws t = Inr (spec_blend ws t)"
proof -
  define s where "s = clamp (t * 3) 0 3"
  define i where "i = \<lfloor>s\<rfloor>"
  have s: "0 \<le> s" "s \<le> 3"
    unfolding s_def by (rule clamp3_bounds)+
  have i: "0 \<le> i" "i \<le> 3"
    using s by (simp_all add: i_def floor_le_iff le_floor_iff)
  have seg: "max 1 (int (length ws) - 1) = 3"
    using len by simp
  have scaled: "min (max (t * real_of_int 3) 0) (real_of_int 3) = s"
    by (simp add: s_def min_max_clamp3)
  have a: "js_index ws i = Some (ws ! nat i)"
    using i len by (simp add: js_index_def)
  have b: "js_index ws (min (i + 1) (int (length ws) - 1)) = Some (ws ! min (nat i + 1) 3)"
  proof -
    have "nat (min (i + 1) 3) = min (nat i + 1) 3"
      using i by simp
    then show ?thesis
      using i len by (simp add: js_index_def)
  qed
  have r: "real_of_int i = real (nat i)"
    using i by simp
  show ?thesis
    unfolding blend_def seg scaled Let_def i_def [symmetric] a b spec_blend_def s_def [symmetric]
    by (simp add: lerp_def r)
qed

lemma blend_at_0: "blend (w # ws) 0 = Inr (camY w, lookAt w)"
proof -
  have b: "0 \<le> min 1 (int (length ws)) \<and> min 1 (int (length ws)) < 1 + int (length ws)"
    by simp
  show ?thesis
    using b by (simp add: blend_def js_index_def Let_def)
qed

text \<open>
  Claim C1. The scroll-to-camera interpolation is a four-point piecewise-linear blend:
  for every list of four waypoints and every scroll fraction \<open>t\<close> (in the unit interval
  or not), the interpolation of the source returns, without failing, what the
  specification describes: \<open>s = clamp (t * 3) 0 3\<close>, segment \<open>i = floor s\<close>, local
  fraction \<open>s - i\<close>, and the linear interpolation between waypoint \<open>i\<close> and waypoint
  \<open>min (i + 1) 3\<close> of \<^verbatim>\<open>camY\<close> and of the three components of \<^verbatim>\<open>lookAt\<close>. A frame
  whose waypoint list has four entries turns the camera to that look-at point and eases
  its height toward that target.
\<close>

theorem C1_four_point_piecewise_linear:
  assumes "length ws = 4"
    and "frame_targets f (frame_prepare f r) = ws"
  shows "blend ws t = Inr (spec_blend ws t)
    \<and> CameraRig_frame f r =
        Inr (move_camera (spec_blend ws (scroll_t f (frame_prepare f r))) (frame_prepare f r))
    \<and> position_y (cam (move_camera (spec_blend ws t) r1)) =
        position_y (cam r1) + (fst (spec_blend ws t) - position_y (cam r1)) * 0.12
    \<and> look (cam (move_camera (spec_blend ws t) r1)) = snd (spec_blend ws t)"
  using assms by (simp add: blend_four CameraRig_frame_def frame_target_def move_camera_def Let_def)

lemma length_fallbackTargets: "length (fallbackTargets iz) = 4"
  by (simp add: fallbackTargets_def Let_def)

theorem C1_four_point_piecewise_linear_witness:
  "length (fallbackTargets (Some 4)) = 4
   \<and> frame_targets sample_frame (frame_prepare sample_frame (CameraRig_init 0 sample_camera))
       = fallbackTargets (Some 4)
   \<and> blend (fallbackTargets (Some 4)) (1 / 2) = Inr (0, Vector3 0 (- (1 / 5)) 0)
   \<and> map_sum id (\<lambda>r. (position_y (cam r), look (cam r)))
        (CameraRig_frame sample_frame (CameraRig_init 0 sample_camera))
       = Inr ((176 / 125), Vector3 0 (- (1 / 5)) 0)"
proof -
  have l: "length (fallbackTargets (Some 4)) = 4"
    by (rule length_fallbackTargets)
  have p: "frame_prepare sample_frame (CameraRig_init 0 sample_camera)
      = \<lparr>lastDrei = Some (1 / 2), lastChangeTime = 16, useWindowFallback = False,
         initialZ = Some 4, cam = sample_camera\<rparr>"
    by (simp add: frame_prepare_def CameraRig_init_def sample_frame_def sample_camera_def
        track_scroll_def read_dreiOffset_def)
  have t: "frame_targets sample_frame (frame_prepare sample_frame (CameraRig_init 0 sample_camera))
       = fallbackTargets (Some 4)"
    unfolding p by (simp add: frame_targets_def sample_frame_def)
  have st: "scroll_t sample_frame \<lparr>lastDrei = Some (1 / 2), lastChangeTime = 16,
      useWindowFallback = False, initialZ = Some 4, cam = sample_camera\<rparr> = (1 / 2)"
    by (simp add: scroll_t_def sample_frame_def read_dreiOffset_def)
  have sb: "spec_blend (fallbackTargets (Some 4)) (1 / 2) = (0, Vector3 0 (- (1 / 5)) 0)"
    by (simp add: spec_blend_def fallbackTargets_def clamp_def lerp_def Let_def)
  note th = C1_four_point_piecewise_linear [OF l t, of "1 / 2" "CameraRig_init 0 sample_camera"]
  have b: "blend (fallbackTargets (Some 4)) (1 / 2) = Inr (0, Vector3 0 (- (1 / 5)) 0)"
    using th sb by simp
  have fr: "CameraRig_frame sample_frame (CameraRig_init 0 sample_camera)
      = Inr (move_camera (0, Vector3 0 (- (1 / 5)) 0)
          \<lparr>lastDrei = Some (1 / 2), lastChangeTime = 16, useWindowFallback = False,
           initialZ = Some 4, cam = sample_camera\<rparr>)"
    using th by (simp add: p st sb)
  have mv: "move_camera (0, Vector3 0 (- (1 / 5)) 0)
          \<lparr>lastDrei = Some (1 / 2), lastChangeTime = 16, useWindowFallback = False,
           initialZ = Some 4, cam = sample_camera\<rparr>
      = \<lparr>lastDrei = Some (1 / 2), lastChangeTime = 16, useWindowFallback = False,
         initialZ = Some 4,
         cam = \<lparr>position_x = 0, position_y = 176 / 125, position_z = 4,
                 look = Vector3 0 (- (1 / 5)) 0\<rparr>\<rparr>"
    by (simp add: move_camera_def sample_camera_def)
  show ?thesis
    unfolding fr mv by (simp add: l t b)
qed

text \<open>
  Claim C3. At scroll fraction 0 the interpolation returns the first waypoint exactly,
  its \<^verbatim>\<open>camY\<close> and its \<^verbatim>\<open>lookAt\<close>, for every non-empty list of waypoints; for the
  built-in list that is height 1.6 looking at (0, 0.9, 0), and for the list derived from
  a bounding box it is the head waypoint.
\<close>

theorem C3_scroll_zero_is_head_waypoint:
  "blend (w # ws) 0 = Inr (camY w, lookAt w)
   \<and> blend (fallbackTargets iz) 0 = Inr (1.6, Vector3 0 0.9 0)
   \<and> map_option (\<lambda>ts. blend ts 0) (sectionTargets (Some b)) =
       Some (Inr (vec_y (bb_max b)
                    + num_or (Some (bb_height b)) (max 1 (vec_y (bb_max b) - vec_y (bb_min b))) * 0.15
                    + MODEL_Y_OFFSET,
                  Vector3 0
                    (vec_y (bb_max b)
                      - num_or (Some (bb_height b)) (max 1 (vec_y (bb_max b) - vec_y (bb_min b))) * 0.08)
                    0))"
proof -
  have 1: "blend (fallbackTargets iz) 0 = Inr (1.6, Vector3 0 0.9 0)"
    unfolding fallbackTargets_def Let_def blend_at_0 by simp
  have 2: "map_option (\<lambda>ts. blend ts 0) (sectionTargets (Some b)) =
       Some (Inr (vec_y (bb_max b)
                    + num_or (Some (bb_height b)) (max 1 (vec_y (bb_max b) - vec_y (bb_min b))) * 0.15
                    + MODEL_Y_OFFSET,
                  Vector3 0
                    (vec_y (bb_max b)
                      - num_or (Some (bb_height b)) (max 1 (vec_y (bb_max b) - vec_y (bb_min b))) * 0.08)
                    0))"
    unfolding sectionTargets_def Let_def option.case option.map blend_at_0 by simp
  show ?thesis
    using blend_at_0 1 2 by blast
qed

subsection \<open>The model instance\<close>

lemma ModelInstance_frame_mounted:
  assumes "groupRef m = Some g"
  shows "ModelInstance_frame off px drag m =
     (let tg = ModelInstance_targets off px drag;
          rotY = rotYRef m + (fst tg - rotYRef m) * 0.12;
          rotX = rotXRef m + (fst (snd tg) - rotXRef m) * 0.06;
          posY = posYRef m + (snd (snd tg) - posYRef m) * 0.08
      in \<lparr>rotYRef = rotY, rotXRef = rotX, posYRef = posY,
          groupRef = Some \<lparr>rotation_x = ROTATION_FIX ! 0 + rotX,
                           rotation_y = ROTATION_FIX ! 1 + rotY,
                           group_position_y = posY\<rparr>\<rparr>)"
  using assms by (simp add: ModelInstance_frame_def Let_def split: prod.split)

lemma ModelInstance_targets_snd:
  "snd (ModelInstance_targets off px' drag') = snd (ModelInstance_targets off px drag)"
  by (simp add: ModelInstance_targets_def Let_def)

lemma ModelInstance_targets_fst:
  "fst (ModelInstance_targets off px' drag') - fst (ModelInstance_targets off px drag)
     = (px' - px) * 0.45 + (drag' - drag)"
  by (simp add: ModelInstance_targets_def Let_def targetCombinedY_def pointerHoverY_def
      HOVER_POINTER_ROT_MAX_def field_simps)

text \<open>
  The frame of the earlier revision is the frame of the later one without dragging.
\<close>

lemma ModelInstance_frame_v1_eq:
  "ModelInstance_frame_v1 t px m = ModelInstance_frame (Some t) px 0 m"
  by (simp add: ModelInstance_frame_v1_def ModelInstance_frame_def ModelInstance_targets_def
      targetCombinedY_def pointerHoverY_def Let_def split: option.split)

text \<open>
  Claim C4. Pointer and drag input turn the model about the vertical axis only: two
  frames of \<^verbatim>\<open>ModelInstance\<close> from the same refs and the same scroll offset that differ
  in \<^verbatim>\<open>pointerX\<close> and \<^verbatim>\<open>dragRotation\<close> have the same target and the same result for the
  rotation about X and for the vertical position; the targets of the rotation about Y
  differ by \<open>(pointerX' - pointerX) * 0.45 + (dragRotation' - dragRotation)\<close>, and the
  eased rotations by 0.12 times as much.
\<close>

theorem C4_pointer_and_drag_turn_only_about_Y:
  assumes "groupRef m = Some g"
  shows "snd (ModelInstance_targets off px' drag') = snd (ModelInstance_targets off px drag)
    \<and> fst (ModelInstance_targets off px' drag') - fst (ModelInstance_targets off px drag)
        = (px' - px) * 0.45 + (drag' - drag)
    \<and> rotXRef (ModelInstance_frame off px' drag' m) = rotXRef (ModelInstance_frame off px drag m)
    \<and> posYRef (ModelInstance_frame off px' drag' m) = posYRef (ModelInstance_frame off px drag m)
    \<and> map_option rotation_x (groupRef (ModelInstance_frame off px' drag' m))
        = map_option rotation_x (groupRef (ModelInstance_frame off px drag m))
    \<and> map_option group_position_y (groupRef (ModelInstance_frame off px' drag' m))
        = map_option group_position_y (groupRef (ModelInstance_frame off px drag m))
    \<and> rotYRef (ModelInstance_frame off px' drag' m) - rotYRef (ModelInstance_frame off px drag m)
        = ((px' - px) * 0.45 + (drag' - drag)) * 0.12"
proof -
  note s = ModelInstance_targets_snd [of off px' drag' px drag]
  note f = ModelInstance_targets_fst [of off px' drag' px drag]
  have y: "rotYRef (ModelInstance_frame off px' drag' m) - rotYRef (ModelInstance_frame off px drag m)
        = (fst (ModelInstance_targets off px' drag') - fst (ModelInstance_targets off px drag)) * 0.12"
    by (simp add: ModelInstance_frame_mounted [OF assms] Let_def field_simps)
  show ?thesis
    unfolding y f by (simp add: ModelInstance_frame_mounted [OF assms] Let_def s f)
qed

theorem C4_pointer_and_drag_turn_only_about_Y_witness:
  "groupRef ModelInstance_init
     = Some \<lparr>rotation_x = 0, rotation_y = 0, group_position_y = - (1 / 2)\<rparr>
   \<and> fst (ModelInstance_targets (Some (1 / 2)) 1 2) - fst (ModelInstance_targets (Some (1 / 2)) 0 0)
       = 49 / 20
   \<and> rotXRef (ModelInstance_frame (Some (1 / 2)) 1 2 ModelInstance_init)
       = rotXRef (ModelInstance_frame (Some (1 / 2)) 0 0 ModelInstance_init)
   \<and> rotYRef (ModelInstance_frame (Some (1 / 2)) 1 2 ModelInstance_init)
       - rotYRef (ModelInstance_frame (Some (1 / 2)) 0 0 ModelInstance_init) = 147 / 500"
proof -
  have g: "groupRef ModelInstance_init
     = Some \<lparr>rotation_x = 0, rotation_y = 0, group_position_y = - (1 / 2)\<rparr>"
    by (simp add: ModelInstance_init_def ROTATION_FIX_def MODEL_Y_OFFSET_def)
  show ?thesis
    using C4_pointer_and_drag_turn_only_about_Y [OF g, of "Some (1 / 2)" 1 2 0 0] g
    by simp
qed

subsection \<open>Easing\<close>

subsubsection \<open>Rounding to an integer\<close>

lemma round_even_cases: "round_even r = \<lfloor>r\<rfloor> \<or> round_even r = \<lfloor>r\<rfloor> + 1"
  by (simp add: round_even_def Let_def)

lemma round_even_error: "\<bar>of_int (round_even r) - r\<bar> \<le> 1 / 2"
  unfolding round_even_def Let_def by (auto; linarith)

lemma round_even_of_int [simp]: "round_even (of_int n) = n"
  by (simp add: round_even_def)

lemma round_even_mono:
  assumes "r \<le> s"
  shows "round_even r \<le> round_even s"
proof (cases "\<lfloor>r\<rfloor> = \<lfloor>s\<rfloor>")
  case True
  then show ?thesis
    using assms unfolding round_even_def Let_def by auto
next
  case False
  then have "\<lfloor>r\<rfloor> + 1 \<le> \<lfloor>s\<rfloor>"
    using assms floor_mono [OF assms] by linarith
  moreover have "round_even r \<le> \<lfloor>r\<rfloor> + 1" "\<lfloor>s\<rfloor> \<le> round_even s"
    using round_even_cases [of r] round_even_cases [of s] by auto
  ultimately show ?thesis
    by linarith
qed

lemma round_even_ge: "of_int n \<le> r \<Longrightarrow> n \<le> round_even r"
  using round_even_mono [of "of_int n" r] by simp

lemma round_even_le: "r \<le> of_int n \<Longrightarrow> round_even r \<le> n"
  using round_even_mono [of r "of_int n"] by simp

lemma round_even_half: "0 \<le> r \<Longrightarrow> r \<le> 1 / 2 \<Longrightarrow> round_even r = 0"
proof -
  assume r: "0 \<le> r" "r \<le> 1 / 2"
  then have "\<lfloor>r\<rfloor> = 0"
    by (simp add: floor_eq_iff)
  then show ?thesis
    using r unfolding round_even_def Let_def by auto
qed

subsubsection \<open>The exponent\<close>

lemma of_int_le_two_power: "c \<le> 2 ^ n \<Longrightarrow> (of_int c :: real) \<le> 2 ^ n"
proof -
  assume "c \<le> 2 ^ n"
  then have "(of_int c :: real) \<le> of_int (2 ^ n)"
    by (simp only: of_int_le_iff)
  then show ?thesis
    by simp
qed

lemma two_power_le_of_int: "2 ^ n \<le> c \<Longrightarrow> (2::real) ^ n \<le> of_int c"
proof -
  assume "2 ^ n \<le> c"
  then have "(of_int (2 ^ n) :: real) \<le> of_int c"
    by (simp only: of_int_le_iff)
  then show ?thesis
    by simp
qed

lemma ilog2_bounds:
  assumes "0 < m"
  shows "2 powi (ilog2 m) \<le> m \<and> m < 2 powi (ilog2 m + 1)"
proof (cases "1 \<le> m")
  case True
  define n where "n = \<lfloor>m\<rfloor>"
  have n: "0 < n" "of_int n \<le> m" "m < of_int n + 1"
    using True by (simp_all add: n_def)
  define k where "k = bitlen n"
  have b: "2 ^ nat (k - 1) \<le> n" "n < 2 ^ nat k"
    using bitlen_bounds [OF n(1)] by (simp_all add: k_def)
  have k1: "1 \<le> k"
    using n(1) by (simp add: k_def bitlen_alt_def)
  have e: "ilog2 m = k - 1"
    using True by (simp add: ilog2_def k_def n_def)
  have "(2::real) powi (k - 1) = 2 ^ nat (k - 1)"
    using k1 by (simp add: power_int_nonneg_exp)
  also have "\<dots> \<le> of_int n"
    using b(1) by (rule two_power_le_of_int)
  finally have lo: "2 powi (k - 1) \<le> m"
    using n(2) by linarith
  have "n + 1 \<le> 2 ^ nat k"
    using b(2) by linarith
  then have "(of_int (n + 1) :: real) \<le> 2 ^ nat k"
    by (rule of_int_le_two_power)
  then have "m < 2 ^ nat k"
    using n(3) by simp
  also have "(2::real) ^ nat k = 2 powi k"
    using k1 by (simp add: power_int_nonneg_exp)
  finally have hi: "m < 2 powi k" .
  show ?thesis
    unfolding e using lo hi by simp
next
  case False
  define c where "c = \<lceil>1 / m\<rceil>"
  have m1: "1 < 1 / m"
    using False assms by simp
  have c: "1 / m \<le> of_int c" "of_int c - 1 < 1 / m" "2 \<le> c"
    using m1 unfolding c_def by (linarith, linarith, linarith)
  define j where "j = bitlen (c - 1)"
  have b: "2 ^ nat (j - 1) \<le> c - 1" "c - 1 < 2 ^ nat j"
    using bitlen_bounds [of "c - 1"] c(3) by (simp_all add: j_def)
  have j1: "1 \<le> j"
    using c(3) by (simp add: j_def bitlen_alt_def)
  have e: "ilog2 m = - j"
    using False by (simp add: ilog2_def j_def c_def)
  have "c \<le> 2 ^ nat j"
    using b(2) by linarith
  then have "(of_int c :: real) \<le> 2 ^ nat j"
    by (rule of_int_le_two_power)
  then have "1 / m \<le> 2 ^ nat j"
    using c(1) by linarith
  then have "1 / 2 ^ nat j \<le> m"
    using assms by (simp add: field_simps)
  moreover have "(2::real) powi (- j) = 1 / 2 ^ nat j"
    using j1 by (simp add: power_int_minus power_int_nonneg_exp field_simps)
  ultimately have lo: "2 powi (- j) \<le> m"
    by simp
  have "(2::real) ^ nat (j - 1) \<le> of_int (c - 1)"
    using b(1) by (rule two_power_le_of_int)
  then have "2 ^ nat (j - 1) < 1 / m"
    using c(2) by simp
  then have "m < 1 / 2 ^ nat (j - 1)"
    using assms by (simp add: field_simps)
  moreover have "(2::real) powi (- j + 1) = 1 / 2 ^ nat (j - 1)"
  proof -
    have "(2::real) powi (- j + 1) = 2 powi (- (j - 1))"
      by simp
    also have "\<dots> = 1 / 2 powi (j - 1)"
      by (simp only: power_int_minus_divide)
    also have "\<dots> = 1 / 2 ^ nat (j - 1)"
      using j1 by (simp add: power_int_nonneg_exp)
    finally show ?thesis .
  qed
  ultimately have hi: "m < 2 powi (- j + 1)"
    by simp
  show ?thesis
    unfolding e using lo hi by simp
qed

lemma two_powi_mono: "a \<le> b \<Longrightarrow> (2::real) powi a \<le> 2 powi b"
  by (rule power_int_increasing) simp_all

lemma two_powi_less_cancel: "(2::real) powi a < 2 powi b \<Longrightarrow> a < b"
  using two_powi_mono [of b a] by (cases "a < b") simp_all

lemma ilog2_eqI:
  assumes "0 < m" and "2 powi e \<le> m" and "m < 2 powi (e + 1)"
  shows "ilog2 m = e"
proof -
  have b: "2 powi (ilog2 m) \<le> m" "m < 2 powi (ilog2 m + 1)"
    using ilog2_bounds [OF assms(1)] by simp_all
  have "(2::real) powi e < 2 powi (ilog2 m + 1)"
    using assms(2) b(2) by linarith
  then have "e < ilog2 m + 1"
    by (rule two_powi_less_cancel)
  moreover have "(2::real) powi (ilog2 m) < 2 powi (e + 1)"
    using assms(3) b(1) by linarith
  then have "ilog2 m < e + 1"
    by (rule two_powi_less_cancel)
  ultimately show ?thesis
    by linarith
qed

lemma ilog2_mono:
  assumes "0 < x" and "x \<le> y"
  shows "ilog2 x \<le> ilog2 y"
proof -
  have "2 powi (ilog2 x) \<le> x" "y < 2 powi (ilog2 y + 1)"
    using ilog2_bounds [of x] ilog2_bounds [of y] assms by simp_all
  then have "(2::real) powi (ilog2 x) < 2 powi (ilog2 y + 1)"
    using assms(2) by linarith
  then have "ilog2 x < ilog2 y + 1"
    by (rule two_powi_less_cancel)
  then show ?thesis
    by simp
qed

subsubsection \<open>The spacing of the doubles\<close>

lemma expo_minus [simp]: "expo (- x) = expo x"
  by (simp add: expo_def)

lemma expo_abs [simp]: "expo \<bar>x\<bar> = expo x"
  by (simp add: expo_def)

lemma expo_ge: "- 1022 \<le> expo x"
  by (simp add: expo_def)

lemma expo_upper:
  assumes "x \<noteq> 0"
  shows "\<bar>x\<bar> < 2 powi (expo x + 1)"
proof -
  have "\<bar>x\<bar> < 2 powi (ilog2 \<bar>x\<bar> + 1)"
    using ilog2_bounds [of "\<bar>x\<bar>"] assms by simp
  also have "\<dots> \<le> 2 powi (expo x + 1)"
    by (rule two_powi_mono) (simp add: expo_def)
  finally show ?thesis .
qed

lemma expo_lower:
  assumes "x \<noteq> 0" and "- 1022 < expo x"
  shows "2 powi (expo x) \<le> \<bar>x\<bar>"
proof -
  have "expo x = ilog2 \<bar>x\<bar>"
    using assms(2) by (simp add: expo_def max_def split: if_splits)
  then show ?thesis
    using ilog2_bounds [of "\<bar>x\<bar>"] assms(1) by simp
qed

lemma expo_mono:
  assumes "x \<noteq> 0" and "\<bar>x\<bar> \<le> \<bar>y\<bar>"
  shows "expo x \<le> expo y"
proof -
  have "ilog2 \<bar>x\<bar> \<le> ilog2 \<bar>y\<bar>"
    using assms by (intro ilog2_mono) simp_all
  then show ?thesis
    by (simp add: expo_def)
qed

lemma expo_le:
  assumes "x \<noteq> 0" and "\<bar>x\<bar> < 2 powi (e + 1)" and "- 1022 \<le> e"
  shows "expo x \<le> e"
proof -
  have "2 powi (ilog2 \<bar>x\<bar>) \<le> \<bar>x\<bar>"
    using ilog2_bounds [of "\<bar>x\<bar>"] assms(1) by simp
  then have "(2::real) powi (ilog2 \<bar>x\<bar>) < 2 powi (e + 1)"
    using assms(2) by linarith
  then have "ilog2 \<bar>x\<bar> < e + 1"
    by (rule two_powi_less_cancel)
  then show ?thesis
    using assms(3) by (simp add: expo_def)
qed

lemma quantum_pos [simp]: "0 < quantum x"
  by (simp add: quantum_def)

lemma quantum_nonneg [simp]: "0 \<le> quantum x"
  by (simp add: quantum_def)

lemma quantum_neq0 [simp]: "quantum x \<noteq> 0"
  by (simp add: quantum_def)

lemma quantum_minus [simp]: "quantum (- x) = quantum x"
  by (simp add: quantum_def)

lemma two_powi_split: "(2::real) powi (a + b) = 2 powi a * 2 powi b"
  by (simp add: power_int_add)

lemma quantum_times: "quantum x * 2 ^ 53 = 2 powi (expo x + 1)"
proof -
  have "expo x + 1 = (expo x - 52) + 53"
    by simp
  then have "(2::real) powi (expo x + 1) = 2 powi ((expo x - 52) + 53)"
    by (rule arg_cong)
  also have "\<dots> = 2 powi (expo x - 52) * 2 powi 53"
    by (rule two_powi_split)
  finally show ?thesis
    by (simp add: quantum_def)
qed

lemma quantum_times': "quantum x * 2 ^ 52 = 2 powi (expo x)"
proof -
  have "expo x = (expo x - 52) + 52"
    by simp
  then have "(2::real) powi (expo x) = 2 powi ((expo x - 52) + 52)"
    by (rule arg_cong)
  also have "\<dots> = 2 powi (expo x - 52) * 2 powi 52"
    by (rule two_powi_split)
  finally show ?thesis
    by (simp add: quantum_def)
qed

lemma ratio_upper:
  assumes "x \<noteq> 0"
  shows "\<bar>x\<bar> / quantum x < 2 ^ 53"
  using expo_upper [OF assms] quantum_times [of x] quantum_pos [of x]
  by (simp add: field_simps)

lemma ratio_lower:
  assumes "x \<noteq> 0" and "- 1022 < expo x"
  shows "2 ^ 52 \<le> \<bar>x\<bar> / quantum x"
  using expo_lower [OF assms] quantum_times' [of x] quantum_pos [of x]
  by (simp add: field_simps)

lemma quantum_half:
  assumes "x \<noteq> 0"
  shows "quantum x / 2 \<le> max (\<bar>x\<bar> / 2 ^ 53) (1 / 2 ^ 1075)"
proof (cases "- 1022 < expo x")
  case True
  have "quantum x * 2 ^ 52 \<le> \<bar>x\<bar>"
    using expo_lower [OF assms True] quantum_times' [of x] by simp
  then have "quantum x / 2 \<le> \<bar>x\<bar> / 2 ^ 53"
    by (simp add: field_simps)
  then show ?thesis
    by simp
next
  case False
  then have "expo x = - 1022"
    using expo_ge [of x] by linarith
  then have "quantum x = 2 powi (- 1074)"
    by (simp add: quantum_def)
  also have "\<dots> = 1 / 2 ^ 1074"
    by (simp add: power_int_minus_divide)
  finally have "quantum x / 2 = 1 / 2 ^ 1075"
    by simp
  then show ?thesis
    by simp
qed

subsubsection \<open>Rounding to a double\<close>

lemma fl_0 [simp]: "fl 0 = 0"
  by (simp add: fl_def)

lemma fl_pos: "0 < x \<Longrightarrow> fl x = of_int (round_even (x / quantum x)) * quantum x"
  by (simp add: fl_def)

lemma fl_minus: "fl (- x) = - fl x"
  by (simp add: fl_def)

lemma round_even_nonneg: "0 \<le> r \<Longrightarrow> 0 \<le> round_even r"
  using round_even_ge [of 0 r] by simp

lemma fl_nonneg:
  assumes "0 \<le> x"
  shows "0 \<le> fl x"
proof (cases "x = 0")
  case True
  then show ?thesis by simp
next
  case False
  then have x: "0 < x"
    using assms by simp
  have "0 \<le> round_even (x / quantum x)"
    using x by (intro round_even_nonneg) simp
  then show ?thesis
    unfolding fl_pos [OF x] by simp
qed

lemma fl_error: "\<bar>fl x - x\<bar> \<le> quantum x / 2"
proof -
  have pos: "\<bar>fl y - y\<bar> \<le> quantum y / 2" if y: "0 < y" for y
  proof -
    have "\<bar>of_int (round_even (y / quantum y)) - y / quantum y\<bar> \<le> 1 / 2"
      by (rule round_even_error)
    then have "\<bar>of_int (round_even (y / quantum y)) - y / quantum y\<bar> * quantum y
        \<le> 1 / 2 * quantum y"
      by (intro mult_right_mono) simp_all
    moreover have "\<bar>of_int (round_even (y / quantum y)) - y / quantum y\<bar> * quantum y
        = \<bar>of_int (round_even (y / quantum y)) * quantum y - y\<bar>"
    proof -
      have "\<bar>of_int (round_even (y / quantum y)) - y / quantum y\<bar> * quantum y
          = \<bar>(of_int (round_even (y / quantum y)) - y / quantum y) * quantum y\<bar>"
        by (simp add: abs_mult)
      also have "(of_int (round_even (y / quantum y)) - y / quantum y) * quantum y
          = of_int (round_even (y / quantum y)) * quantum y - y"
        using quantum_pos [of y] by (simp add: field_simps)
      finally show ?thesis .
    qed
    ultimately show ?thesis
      unfolding fl_pos [OF y] by simp
  qed
  consider "x = 0" | "0 < x" | "x < 0"
    by linarith
  then show ?thesis
  proof cases
    case 1
    then show ?thesis
      using quantum_pos [of 0] by simp
  next
    case 2
    then show ?thesis by (rule pos)
  next
    case 3
    then have "\<bar>fl (- x) - (- x)\<bar> \<le> quantum (- x) / 2"
      by (intro pos) simp
    then show ?thesis
      by (simp add: fl_minus abs_minus_commute)
  qed
qed

lemma fl_error_bound: "\<bar>fl x - x\<bar> \<le> \<bar>x\<bar> / 2 ^ 53 + 1 / 2 ^ 1075"
proof (cases "x = 0")
  case True
  then show ?thesis by simp
next
  case False
  have "\<bar>fl x - x\<bar> \<le> max (\<bar>x\<bar> / 2 ^ 53) (1 / 2 ^ 1075)"
    using fl_error [of x] quantum_half [OF False] by linarith
  also have "\<dots> \<le> \<bar>x\<bar> / 2 ^ 53 + 1 / 2 ^ 1075"
    by simp
  finally show ?thesis .
qed

text \<open>A multiple of the spacing with at most 53 bits is a double.\<close>

lemma two_powi_diff_nat:
  assumes "b \<le> a"
  shows "(2::real) powi a / 2 powi b = 2 ^ nat (a - b)"
proof -
  have "(2::real) powi a = 2 powi (b + (a - b))"
    by simp
  also have "\<dots> = 2 powi b * 2 powi (a - b)"
    by (rule two_powi_split)
  also have "(2::real) powi (a - b) = 2 ^ nat (a - b)"
    using assms by (simp add: power_int_nonneg_exp)
  finally show ?thesis
    by simp
qed

lemma fl_grid_pos:
  assumes "0 < x" and "x = of_int n * 2 powi e" and "- 1074 \<le> e" and "x < 2 powi (e + 53)"
  shows "fl x = x"
proof -
  have "expo x \<le> e + 52"
  proof (rule expo_le)
    show "x \<noteq> 0"
      using assms(1) by simp
    have "e + 52 + 1 = e + 53"
      by simp
    then have "(2::real) powi (e + 52 + 1) = 2 powi (e + 53)"
      by (rule arg_cong)
    then show "\<bar>x\<bar> < 2 powi (e + 52 + 1)"
      using assms(1,4) by linarith
    show "- 1022 \<le> e + 52"
      using assms(3) by simp
  qed
  then have le: "expo x - 52 \<le> e"
    by simp
  define k where "k = nat (e - (expo x - 52))"
  have "x / quantum x = of_int n * (2 powi e / 2 powi (expo x - 52))"
    by (simp add: assms(2) quantum_def)
  also have "\<dots> = of_int n * 2 ^ k"
    unfolding k_def using two_powi_diff_nat [OF le] by simp
  also have "\<dots> = of_int (n * 2 ^ k)"
    by simp
  finally have "round_even (x / quantum x) = n * 2 ^ k"
    by (simp only: round_even_of_int)
  then have "fl x = of_int (n * 2 ^ k) * quantum x"
    using fl_pos [OF assms(1)] by simp
  also have "\<dots> = of_int n * (2 ^ k * quantum x)"
    by simp
  also have "2 ^ k * quantum x = 2 powi e"
    unfolding k_def quantum_def using two_powi_diff_nat [OF le] by (simp add: field_simps)
  finally show ?thesis
    using assms(2) by simp
qed

lemma fl_grid_top:
  assumes "0 \<le> n" and "n \<le> 2 ^ 53" and "- 1074 \<le> e"
  shows "fl (of_int n * 2 powi e) = of_int n * 2 powi e"
proof -
  consider "n = 0" | "0 < n" "n < 2 ^ 53" | "n = 2 ^ 53"
    using assms by linarith
  then show ?thesis
  proof cases
    case 1
    then show ?thesis by simp
  next
    case 2
    have "(of_int n :: real) < 2 ^ 53"
      using 2(2) by (metis of_int_less_iff of_int_numeral of_int_power)
    then have "of_int n * (2::real) powi e < 2 ^ 53 * 2 powi e"
      by (intro mult_strict_right_mono) simp_all
    also have "\<dots> = 2 powi (e + 53)"
      by (simp add: two_powi_split)
    finally have "of_int n * (2::real) powi e < 2 powi (e + 53)" .
    then show ?thesis
      using 2(1) assms(3) by (intro fl_grid_pos [where n = n and e = e]) simp_all
  next
    case 3
    define y :: real where "y = 2 powi (e + 53)"
    have eq: "of_int n * (2::real) powi e = y"
      by (simp add: 3 two_powi_split y_def)
    have y: "0 < y" "y = of_int 1 * 2 powi (e + 53)" "- 1074 \<le> e + 53"
      using assms(3) by (simp_all add: y_def)
    have "y < 2 powi (e + 53 + 53)"
      unfolding y_def by (rule power_int_strict_increasing) simp_all
    then have "fl y = y"
      using y by (intro fl_grid_pos [where n = 1 and e = "e + 53"])
    then show ?thesis
      unfolding eq .
  qed
qed

lemma round_even_upper: "0 \<le> r \<Longrightarrow> r < 2 ^ 53 \<Longrightarrow> round_even r \<le> 2 ^ 53"
  using round_even_le [of r "2 ^ 53"] by simp

lemma fl_fl [simp]: "fl (fl x) = fl x"
proof -
  have pos: "fl (fl y) = fl y" if y: "0 < y" for y
  proof -
    have r: "0 \<le> y / quantum y" "y / quantum y < 2 ^ 53"
      using y ratio_upper [of y] by simp_all
    have "fl (of_int (round_even (y / quantum y)) * 2 powi (expo y - 52))
        = of_int (round_even (y / quantum y)) * 2 powi (expo y - 52)"
      using round_even_nonneg [OF r(1)] round_even_upper [OF r] expo_ge [of y]
      by (intro fl_grid_top) simp_all
    then show ?thesis
      unfolding fl_pos [OF y] quantum_def .
  qed
  consider "x = 0" | "0 < x" | "x < 0"
    by linarith
  then show ?thesis
  proof cases
    case 1
    then show ?thesis by simp
  next
    case 2
    then show ?thesis by (rule pos)
  next
    case 3
    then have "fl (fl (- x)) = fl (- x)"
      by (intro pos) simp
    then show ?thesis
      by (simp add: fl_minus)
  qed
qed

lemma fl_mono_pos:
  assumes "0 < x" and "x \<le> y"
  shows "fl x \<le> fl y"
proof -
  have y: "0 < y"
    using assms by linarith
  have le: "expo x \<le> expo y"
    using assms by (intro expo_mono) simp_all
  show ?thesis
  proof (cases "expo x = expo y")
    case True
    then have q: "quantum x = quantum y"
      by (simp add: quantum_def)
    have "x / quantum y \<le> y / quantum y"
      using assms(2) by (intro divide_right_mono) simp_all
    then have "round_even (x / quantum y) \<le> round_even (y / quantum y)"
      by (rule round_even_mono)
    then have "(of_int (round_even (x / quantum y)) :: real) \<le> of_int (round_even (y / quantum y))"
      by simp
    then have "of_int (round_even (x / quantum y)) * quantum y
        \<le> of_int (round_even (y / quantum y)) * quantum y"
      by (intro mult_right_mono) simp_all
    then show ?thesis
      unfolding fl_pos [OF assms(1)] fl_pos [OF y] q .
  next
    case False
    then have lt: "expo x + 1 \<le> expo y"
      using le by linarith
    then have normal: "- 1022 < expo y"
      using expo_ge [of x] by linarith
    have rx: "0 \<le> x / quantum x" "x / quantum x < 2 ^ 53"
      using assms(1) ratio_upper [of x] by simp_all
    have "(of_int (round_even (x / quantum x)) :: real) \<le> of_int (2 ^ 53)"
      using round_even_upper [OF rx] by (simp only: of_int_le_iff)
    then have "of_int (round_even (x / quantum x)) * quantum x \<le> of_int (2 ^ 53) * quantum x"
      by (intro mult_right_mono) simp_all
    also have "\<dots> = 2 powi (expo x + 1)"
      using quantum_times [of x] by (simp add: mult.commute)
    also have "\<dots> \<le> 2 powi (expo y)"
      using lt by (rule two_powi_mono)
    also have "\<dots> = of_int (2 ^ 52) * quantum y"
      using quantum_times' [of y] by (simp add: mult.commute)
    also have "\<dots> \<le> of_int (round_even (y / quantum y)) * quantum y"
    proof (intro mult_right_mono)
      have "(of_int (2 ^ 52) :: real) \<le> y / quantum y"
        using ratio_lower [of y] y normal by simp
      then have "2 ^ 52 \<le> round_even (y / quantum y)"
        by (rule round_even_ge)
      then show "(of_int (2 ^ 52) :: real) \<le> of_int (round_even (y / quantum y))"
        by (simp only: of_int_le_iff)
    qed simp
    finally show ?thesis
      unfolding fl_pos [OF assms(1)] fl_pos [OF y] .
  qed
qed

lemma fl_mono:
  assumes "x \<le> y"
  shows "fl x \<le> fl y"
proof -
  consider "0 < x" | "x \<le> 0" "0 \<le> y" | "y < 0"
    using assms by linarith
  then show ?thesis
  proof cases
    case 1
    then show ?thesis
      using assms by (rule fl_mono_pos)
  next
    case 2
    have "fl x \<le> 0"
      using fl_nonneg [of "- x"] 2(1) by (simp add: fl_minus)
    moreover have "0 \<le> fl y"
      using 2(2) by (rule fl_nonneg)
    ultimately show ?thesis
      by linarith
  next
    case 3
    then have "fl (- y) \<le> fl (- x)"
      using assms by (intro fl_mono_pos) simp_all
    then show ?thesis
      by (simp add: fl_minus)
  qed
qed

text \<open>
  At most half of a rounded number, rounded, is not above the number itself: an eased
  value cannot pass its target.
\<close>

lemma fl_tiny:
  assumes "0 \<le> w" and "w \<le> 1 / 2 ^ 1075"
  shows "fl w = 0"
proof (cases "w = 0")
  case True
  then show ?thesis by simp
next
  case False
  then have w: "0 < w"
    using assms(1) by simp
  have "(2::real) powi (- 1022 + 1) = 1 / 2 ^ 1021"
    by (simp add: power_int_minus_divide)
  moreover have "w < 1 / 2 ^ 1021"
    using assms(2) by simp
  ultimately have "expo w \<le> - 1022"
    using w by (intro expo_le) simp_all
  then have "expo w = - 1022"
    using expo_ge [of w] by linarith
  then have "quantum w = 2 powi (- 1074)"
    by (simp add: quantum_def)
  also have "\<dots> = 1 / 2 ^ 1074"
    by (simp add: power_int_minus_divide)
  finally have q: "quantum w = 1 / 2 ^ 1074" .
  have "w / quantum w \<le> 1 / 2"
    unfolding q using assms(2) by simp
  moreover have "0 \<le> w / quantum w"
    using w by simp
  ultimately have "round_even (w / quantum w) = 0"
    by (intro round_even_half)
  then show ?thesis
    unfolding fl_pos [OF w] by simp
qed

lemma fl_fraction_le:
  assumes "0 \<le> x" and "0 \<le> a" and "a \<le> 1 / 2"
  shows "fl (fl x * a) \<le> x"
proof (cases "x = 0")
  case True
  then show ?thesis by simp
next
  case False
  then have x: "0 < x"
    using assms(1) by simp
  define q where "q = quantum x"
  define n where "n = \<lfloor>x / q\<rfloor>"
  have q: "0 < q"
    by (simp add: q_def)
  have n0: "0 \<le> n"
    using x q by (simp add: n_def)
  have nx: "of_int n * q \<le> x"
  proof -
    have "of_int n \<le> x / q"
      by (simp add: n_def)
    then show ?thesis
      using q by (simp add: field_simps)
  qed
  have "round_even (x / q) \<le> n + 1"
    using round_even_cases [of "x / q"] by (auto simp add: n_def)
  then have "(of_int (round_even (x / q)) :: real) \<le> of_int (n + 1)"
    by (simp only: of_int_le_iff)
  then have "of_int (round_even (x / q)) * q \<le> of_int (n + 1) * q"
    using q by (intro mult_right_mono) simp_all
  then have up: "fl x \<le> of_int (n + 1) * q"
    unfolding fl_pos [OF x] q_def .
  have fx: "0 \<le> fl x"
    using assms(1) by (rule fl_nonneg)
  have half: "fl x * a \<le> fl x * (1 / 2)"
    using assms(3) fx by (intro mult_left_mono) simp_all
  show ?thesis
  proof (cases "n = 0")
    case True
    have small: "x / q < 1"
      using True unfolding n_def by (simp add: floor_eq_iff)
    have "\<not> - 1022 < expo x"
    proof
      assume "- 1022 < expo x"
      then have "2 ^ 52 \<le> x / q"
        using ratio_lower [of x] x by (simp add: q_def)
      then show False
        using small by simp
    qed
    then have "expo x = - 1022"
      using expo_ge [of x] by linarith
    then have "q = 2 powi (- 1074)"
      by (simp add: q_def quantum_def)
    also have "\<dots> = 1 / 2 ^ 1074"
      by (simp add: power_int_minus_divide)
    finally have qv: "q = 1 / 2 ^ 1074" .
    have "fl x \<le> q"
      using up True by simp
    then have "fl x * a \<le> 1 / 2 ^ 1075"
      using half unfolding qv by simp
    moreover have "0 \<le> fl x * a"
      using fx assms(2) by simp
    ultimately have "fl (fl x * a) = 0"
      by (intro fl_tiny)
    then show ?thesis
      using assms(1) by simp
  next
    case False
    then have n1: "1 \<le> n"
      using n0 by linarith
    then have "n + 1 \<le> 2 * n"
      by simp
    then have "(of_int (n + 1) :: real) \<le> of_int (2 * n)"
      by (simp only: of_int_le_iff)
    then have "of_int (n + 1) * q \<le> of_int (2 * n) * q"
      using q by (intro mult_right_mono) simp_all
    then have "fl x * a \<le> of_int n * q"
      using up half by simp
    then have "fl (fl x * a) \<le> fl (of_int n * q)"
      by (rule fl_mono)
    also have "fl (of_int n * q) = of_int n * q"
    proof -
      have "of_int n \<le> x / q"
        by (simp add: n_def)
      then have "of_int n < (2::real) ^ 53"
        using ratio_upper [of x] x by (simp add: q_def)
      then have "n < 2 ^ 53"
        by (metis of_int_less_iff of_int_numeral of_int_power)
      then show ?thesis
        unfolding q_def quantum_def using n0 expo_ge [of x] by (intro fl_grid_top) simp_all
    qed
    finally show ?thesis
      using nx by linarith
  qed
qed

subsubsection \<open>One easing step\<close>

lemma ease_minus: "ease a (- T) (- v) = - ease a T v"
proof -
  have "- T - - v = - (T - v)"
    by simp
  then have "fl (- T - - v) = - fl (T - v)"
    by (simp only: fl_minus)
  then have "- v + fl (fl (- T - - v) * a) = - (v + fl (fl (T - v) * a))"
    by (simp add: fl_minus)
  then show ?thesis
    unfolding ease_def by (simp only: fl_minus)
qed

lemma ease_step_up:
  assumes "v \<le> T" and "0 \<le> a" and "a \<le> 1 / 2"
  shows "0 \<le> fl (fl (T - v) * a)" and "v + fl (fl (T - v) * a) \<le> T"
proof -
  have d: "0 \<le> fl (T - v)"
    using assms(1) by (intro fl_nonneg) simp
  then show "0 \<le> fl (fl (T - v) * a)"
    using assms(2) by (intro fl_nonneg) simp
  have "fl (fl (T - v) * a) \<le> T - v"
    using assms by (intro fl_fraction_le) simp_all
  then show "v + fl (fl (T - v) * a) \<le> T"
    by simp
qed

lemma ease_between_up:
  assumes "fl v = v" and "fl T = T" and "v \<le> T" and "0 \<le> a" and "a \<le> 1 / 2"
  shows "v \<le> ease a T v" and "ease a T v \<le> T"
proof -
  have "fl v \<le> fl (v + fl (fl (T - v) * a))"
    using ease_step_up(1) [OF assms(3-5)] by (intro fl_mono) simp
  then show "v \<le> ease a T v"
    unfolding ease_def assms(1) .
  have "fl (v + fl (fl (T - v) * a)) \<le> fl T"
    using ease_step_up(2) [OF assms(3-5)] by (rule fl_mono)
  then show "ease a T v \<le> T"
    unfolding ease_def assms(2) .
qed

lemma ease_between_down:
  assumes "fl v = v" and "fl T = T" and "T \<le> v" and "0 \<le> a" and "a \<le> 1 / 2"
  shows "T \<le> ease a T v" and "ease a T v \<le> v"
proof -
  have m: "fl (- v) = - v" "fl (- T) = - T" "- v \<le> - T"
    using assms(1-3) by (simp_all add: fl_minus)
  show "T \<le> ease a T v"
    using ease_between_up(2) [OF m assms(4,5)] by (simp add: ease_minus)
  show "ease a T v \<le> v"
    using ease_between_up(1) [OF m assms(4,5)] by (simp add: ease_minus)
qed

lemma ease_between:
  assumes "fl v = v" and "fl T = T" and "0 \<le> a" and "a \<le> 1 / 2"
  shows "min v T \<le> ease a T v \<and> ease a T v \<le> max v T"
proof (cases "v \<le> T")
  case True
  then show ?thesis
    using ease_between_up [OF assms(1,2) True assms(3,4)] by simp
next
  case False
  then have "T \<le> v"
    by simp
  then show ?thesis
    using ease_between_down [OF assms(1,2) _ assms(3,4)] by simp
qed

lemma ease_fixed: "fl T = T \<Longrightarrow> ease a T T = T"
  by (simp add: ease_def)

lemma fl_ease [simp]: "fl (ease a T v) = ease a T v"
  by (simp add: ease_def)

lemma ease_exact_distance:
  assumes "a \<le> 1"
  shows "\<bar>ease_exact a T v - T\<bar> = (1 - a) * \<bar>v - T\<bar>"
proof -
  have "ease_exact a T v - T = (1 - a) * (v - T)"
    by (simp add: ease_exact_def algebra_simps)
  then show ?thesis
    using assms by (simp add: abs_mult)
qed

lemma abs_sum3: "\<bar>a + b + c\<bar> \<le> \<bar>a\<bar> + \<bar>b\<bar> + \<bar>c\<bar>" for a b c :: real
  by linarith

lemma half_bound: "A \<le> B / 2 \<Longrightarrow> B \<le> 2 * w + h \<Longrightarrow> A \<le> w + h / 2" for A B w h :: real
  by linarith

lemma sum3_bound:
  "A \<le> w + h \<Longrightarrow> B \<le> 2 * w + 3 / 2 * h \<Longrightarrow> C \<le> w + h / 2 \<Longrightarrow> 0 \<le> h
    \<Longrightarrow> A + B + C \<le> 4 * w + 4 * h" for A B C w h :: real
  by linarith

lemma ease_rounding:
  assumes "fl v = v" and "fl T = T" and "0 \<le> a" and "a \<le> 1 / 2"
  shows "\<bar>ease a T v - ease_exact a T v\<bar> \<le> ease_error T v"
proof -
  define u :: real where "u = 1 / 2 ^ 53"
  define h :: real where "h = 1 / 2 ^ 1075"
  define M where "M = max \<bar>v\<bar> \<bar>T\<bar>"
  define x where "x = T - v"
  define d where "d = fl x"
  define p where "p = fl (d * a)"
  define s where "s = v + p"
  have u: "0 \<le> u" "u \<le> 1"
    by (simp_all add: u_def)
  have h: "0 \<le> h"
    by (simp add: h_def)
  have err: "\<bar>fl y - y\<bar> \<le> \<bar>y\<bar> * u + h" for y
    using fl_error_bound [of y] by (simp add: u_def h_def)
  have M: "\<bar>v\<bar> \<le> M" "\<bar>T\<bar> \<le> M"
    by (simp_all add: M_def)
  have M0: "0 \<le> M"
    using M(1) by linarith
  have x: "\<bar>x\<bar> \<le> 2 * M"
    using M unfolding x_def by linarith
  have s: "\<bar>s\<bar> \<le> M"
  proof (cases "v \<le> T")
    case True
    have "0 \<le> p" "v + p \<le> T"
      using ease_step_up [OF True assms(3,4)] by (simp_all add: p_def d_def x_def)
    then show ?thesis
      using M unfolding s_def by linarith
  next
    case False
    then have le: "- v \<le> - T"
      by simp
    have m1: "fl (v - T) = - fl (T - v)"
      using fl_minus [of "T - v"] by simp
    have m2: "fl (fl (v - T) * a) = - p"
      unfolding m1 p_def d_def x_def using fl_minus [of "fl (T - v) * a"] by simp
    have "0 \<le> - p" "- v + - p \<le> - T"
      using ease_step_up [OF le assms(3,4)] m2 by simp_all
    then show ?thesis
      using M unfolding s_def by linarith
  qed
  define w where "w = M * u"
  have w0: "0 \<le> w"
    using M0 u(1) by (simp add: w_def)
  have B1: "\<bar>fl s - s\<bar> \<le> w + h"
  proof -
    have "\<bar>s\<bar> * u \<le> w"
      unfolding w_def using s u(1) by (rule mult_right_mono)
    then show ?thesis
      using err [of s] by linarith
  qed
  have B2: "\<bar>d - x\<bar> \<le> 2 * w + h"
  proof -
    have "\<bar>x\<bar> * u \<le> 2 * M * u"
      using x u(1) by (rule mult_right_mono)
    then have "\<bar>x\<bar> * u \<le> 2 * w"
      by (simp add: w_def)
    then show ?thesis
      using err [of x] unfolding d_def by linarith
  qed
  have B3: "\<bar>d\<bar> \<le> 2 * M + 2 * w + h"
    using B2 x by linarith
  have da: "\<bar>d * a\<bar> \<le> \<bar>d\<bar> / 2"
  proof -
    have "\<bar>d * a\<bar> = \<bar>d\<bar> * a"
      using assms(3) by (simp add: abs_mult)
    also have "\<dots> \<le> \<bar>d\<bar> * (1 / 2)"
      using assms(4) by (intro mult_left_mono) simp_all
    finally show ?thesis
      by simp
  qed
  have B4: "\<bar>p - d * a\<bar> \<le> 2 * w + 3 / 2 * h"
  proof -
    have "\<bar>d * a\<bar> \<le> M + w + h / 2"
      using da B3 by linarith
    then have "\<bar>d * a\<bar> * u \<le> (M + w + h / 2) * u"
      using u(1) by (rule mult_right_mono)
    also have "\<dots> = w + w * u + (h / 2) * u"
      by (simp add: algebra_simps w_def)
    also have "\<dots> \<le> w + w * 1 + (h / 2) * 1"
      using u w0 h by (intro add_mono mult_left_mono) simp_all
    finally have "\<bar>d * a\<bar> * u \<le> 2 * w + h / 2"
      by simp
    then show ?thesis
      using err [of "d * a"] unfolding p_def by linarith
  qed
  have B5: "\<bar>(d - x) * a\<bar> \<le> w + h / 2"
  proof -
    have "\<bar>(d - x) * a\<bar> = \<bar>d - x\<bar> * a"
      using assms(3) by (simp add: abs_mult)
    also have "\<dots> \<le> \<bar>d - x\<bar> * (1 / 2)"
      using assms(4) by (intro mult_left_mono) simp_all
    finally have "\<bar>(d - x) * a\<bar> \<le> \<bar>d - x\<bar> / 2"
      by simp
    then show ?thesis
      using B2 by (rule half_bound)
  qed
  have split: "ease a T v - ease_exact a T v = (fl s - s) + (p - d * a) + (d - x) * a"
    unfolding ease_def ease_exact_def s_def p_def d_def x_def by (simp add: algebra_simps)
  have "\<bar>ease a T v - ease_exact a T v\<bar>
      \<le> \<bar>fl s - s\<bar> + \<bar>p - d * a\<bar> + \<bar>(d - x) * a\<bar>"
    unfolding split by (rule abs_sum3)
  also have "\<dots> \<le> 4 * w + 4 * h"
    using B1 B4 B5 h by (rule sum3_bound)
  also have "4 * w = M * (4 * u)"
    by (simp add: w_def)
  also have "4 * u = 1 / 2 ^ 51"
    by (simp add: u_def)
  also have "4 * h = 1 / 2 ^ 1073"
    by (simp add: h_def)
  finally show ?thesis
    unfolding ease_error_def M_def by simp
qed

subsubsection \<open>Evaluation\<close>

lemma expo_eqI:
  assumes "0 < x" and "2 powi e \<le> x" and "x < 2 powi (e + 1)" and "- 1022 \<le> e"
  shows "expo x = e"
proof -
  have "ilog2 \<bar>x\<bar> = e"
    using assms(1-3) by (intro ilog2_eqI) simp_all
  then show ?thesis
    using assms(4) by (simp add: expo_def)
qed

lemma fl_eval:
  assumes "0 < x" and "2 powi e \<le> x" and "x < 2 powi (e + 1)" and "- 1022 \<le> e"
  shows "fl x = of_int (round_even (x / 2 powi (e - 52))) * 2 powi (e - 52)"
  unfolding fl_pos [OF assms(1)] quantum_def expo_eqI [OF assms] by (rule refl)

lemma fl_grid:
  assumes "x = of_int n * 2 powi e" and "0 \<le> n" and "n \<le> 2 ^ 53" and "- 1074 \<le> e"
  shows "fl x = x"
  unfolding assms(1) using assms(2-4) by (rule fl_grid_top)

lemma fl_12: "fl (12 / 100) = 1080863910568919 / 2 ^ 53"
proof -
  have "fl (12 / 100) = of_int (round_even (12 / 100 / 2 powi (- 4 - 52))) * 2 powi (- 4 - 52)"
    by (rule fl_eval) (simp_all add: power_int_minus_divide)
  also have "(12 / 100 / 2 powi (- 4 - 52) :: real) = 8646911284551352 + 8 / 25"
    by (simp add: power_int_minus_divide)
  also have "round_even (8646911284551352 + 8 / 25) = 8646911284551352"
    by (simp add: round_even_def Let_def)
  finally show ?thesis
    by (simp add: power_int_minus_divide)
qed

lemma fl_one [simp]: "fl 1 = 1"
  by (rule fl_grid [where n = 1 and e = 0]) simp_all

lemma stall:
  "ease (fl (12 / 100)) 1 (1 - 1 / 2 ^ 53) = 1 - 1 / 2 ^ 53"
proof -
  have d: "fl (1 - (1 - 1 / 2 ^ 53)) = 1 / 2 ^ 53"
    by (rule trans [OF _ fl_grid [where n = 1 and e = "- 53"]])
      (simp_all add: power_int_minus_divide)
  have p: "fl (1 / 2 ^ 53 * (1080863910568919 / 2 ^ 53)) = 1080863910568919 / 2 ^ 106"
    by (rule trans [OF _ fl_grid [where n = 1080863910568919 and e = "- 106"]])
      (simp_all add: power_int_minus_divide)
  have "fl (1 - 1 / 2 ^ 53 + 1080863910568919 / 2 ^ 106)
      = of_int (round_even ((1 - 1 / 2 ^ 53 + 1080863910568919 / 2 ^ 106) / 2 powi (- 1 - 52)))
          * 2 powi (- 1 - 52)"
    by (rule fl_eval) (simp_all add: power_int_minus_divide)
  also have "((1 - 1 / 2 ^ 53 + 1080863910568919 / 2 ^ 106) / 2 powi (- 1 - 52) :: real)
      = 9007199254740991 + 1080863910568919 / 9007199254740992"
    by (simp add: power_int_minus_divide)
  also have "round_even (9007199254740991 + 1080863910568919 / 9007199254740992)
      = 9007199254740991"
    by (simp add: round_even_def Let_def)
  finally have s: "fl (1 - 1 / 2 ^ 53 + 1080863910568919 / 2 ^ 106) = 1 - 1 / 2 ^ 53"
    by (simp add: power_int_minus_divide)
  show ?thesis
    unfolding ease_def fl_12 d p s by (rule refl)
qed

subsubsection \<open>Repeated easing\<close>

lemma ease_funpow_minus: "(ease a (- T) ^^ n) (- v) = - (ease a T ^^ n) v"
  by (induction n) (simp_all add: ease_minus)

lemma fl_ease_funpow: "fl v = v \<Longrightarrow> fl ((ease a T ^^ n) v) = (ease a T ^^ n) v"
  by (cases n) simp_all

lemma ease_funpow_up:
  assumes "fl v = v" and "fl T = T" and "v \<le> T" and "0 \<le> a" and "a \<le> 1 / 2"
  shows "v \<le> (ease a T ^^ n) v \<and> (ease a T ^^ n) v \<le> T"
proof (induction n)
  case 0
  then show ?case
    using assms(3) by simp
next
  case (Suc n)
  have f: "fl ((ease a T ^^ n) v) = (ease a T ^^ n) v"
    using assms(1) by (rule fl_ease_funpow)
  have "(ease a T ^^ n) v \<le> ease a T ((ease a T ^^ n) v)"
    "ease a T ((ease a T ^^ n) v) \<le> T"
    using ease_between_up [OF f assms(2) _ assms(4,5)] Suc.IH by simp_all
  then show ?case
    using Suc.IH by simp
qed

lemma ease_funpow_incseq:
  assumes "fl v = v" and "fl T = T" and "v \<le> T" and "0 \<le> a" and "a \<le> 1 / 2"
  shows "incseq (\<lambda>n. (ease a T ^^ n) v)"
proof (rule incseq_SucI)
  fix n
  have f: "fl ((ease a T ^^ n) v) = (ease a T ^^ n) v"
    using assms(1) by (rule fl_ease_funpow)
  have "(ease a T ^^ n) v \<le> T"
    using ease_funpow_up [OF assms] by simp
  then have "(ease a T ^^ n) v \<le> ease a T ((ease a T ^^ n) v)"
    using ease_between_up(1) [OF f assms(2) _ assms(4,5)] by simp
  then show "(ease a T ^^ n) v \<le> (ease a T ^^ Suc n) v"
    by simp
qed

lemma ease_error_mono:
  assumes "\<bar>w\<bar> \<le> max \<bar>v\<bar> \<bar>T\<bar>"
  shows "ease_error T w \<le> ease_error T v"
proof -
  have "max \<bar>w\<bar> \<bar>T\<bar> \<le> max \<bar>v\<bar> \<bar>T\<bar>"
    using assms by simp
  then have "max \<bar>w\<bar> \<bar>T\<bar> / 2 ^ 51 \<le> max \<bar>v\<bar> \<bar>T\<bar> / 2 ^ 51"
    by (rule divide_right_mono) simp
  then show ?thesis
    unfolding ease_error_def by simp
qed

lemma ease_contracts:
  assumes "fl v = v" and "fl T = T" and "0 \<le> a" and "a \<le> 1 / 2"
  shows "\<bar>ease a T v - T\<bar> \<le> (1 - a) * \<bar>v - T\<bar> + ease_error T v"
proof -
  have "ease a T v - T = (ease a T v - ease_exact a T v) + (ease_exact a T v - T)"
    by simp
  then have "\<bar>ease a T v - T\<bar> \<le> \<bar>ease a T v - ease_exact a T v\<bar> + \<bar>ease_exact a T v - T\<bar>"
    by linarith
  moreover have "\<bar>ease_exact a T v - T\<bar> = (1 - a) * \<bar>v - T\<bar>"
    using assms(4) by (intro ease_exact_distance) simp
  ultimately show ?thesis
    using ease_rounding [OF assms] by linarith
qed

lemma ease_limit_up:
  assumes "fl v = v" and "fl T = T" and "v \<le> T" and "0 \<le> a" and "a \<le> 1 / 2"
  shows "\<exists>L. (\<lambda>n. (ease a T ^^ n) v) \<longlonglongrightarrow> L \<and> v \<le> L \<and> L \<le> T
    \<and> a * (T - L) \<le> ease_error T v"
proof -
  let ?X = "\<lambda>n. (ease a T ^^ n) v"
  define E where "E = ease_error T v"
  have bounds: "v \<le> ?X n" "?X n \<le> T" for n
    using ease_funpow_up [OF assms, of n] by simp_all
  have inc: "incseq ?X"
    using assms by (rule ease_funpow_incseq)
  obtain L where L: "?X \<longlonglongrightarrow> L"
    using incseq_convergent [OF inc, of T] bounds(2) by blast
  have vL: "v \<le> L"
    using L by (rule LIMSEQ_le_const) (use bounds(1) in blast)
  have LT: "L \<le> T"
    using L by (rule LIMSEQ_le_const2) (use bounds(2) in blast)
  have step: "a * T + (1 - a) * ?X n - E \<le> ?X (Suc n)" for n
  proof -
    have f: "fl (?X n) = ?X n"
      using assms(1) by (rule fl_ease_funpow)
    have "\<bar>?X n\<bar> \<le> max \<bar>v\<bar> \<bar>T\<bar>"
      using bounds [of n] by linarith
    then have e: "ease_error T (?X n) \<le> E"
      unfolding E_def by (rule ease_error_mono)
    have e1: "\<bar>ease a T (?X n) - T\<bar> = T - ease a T (?X n)"
      using bounds(2) [of "Suc n"] by simp
    have e2: "\<bar>?X n - T\<bar> = T - ?X n"
      using bounds(2) [of n] by simp
    have "\<bar>ease a T (?X n) - T\<bar> \<le> (1 - a) * \<bar>?X n - T\<bar> + ease_error T (?X n)"
      using f assms(2,4,5) by (rule ease_contracts)
    then have "T - ease a T (?X n) \<le> (1 - a) * (T - ?X n) + ease_error T (?X n)"
      unfolding e1 e2 .
    also have "\<dots> \<le> (1 - a) * (T - ?X n) + E"
      using e by (rule add_left_mono)
    finally show ?thesis
      by (simp add: algebra_simps)
  qed
  have "(\<lambda>n. a * T + (1 - a) * ?X n - E) \<longlonglongrightarrow> a * T + (1 - a) * L - E"
    by (intro tendsto_intros L)
  moreover have "(\<lambda>n. ?X (Suc n)) \<longlonglongrightarrow> L"
    using L by (rule LIMSEQ_Suc)
  ultimately have "a * T + (1 - a) * L - E \<le> L"
    by (rule LIMSEQ_le) (use step in blast)
  then have "a * (T - L) \<le> E"
    by (simp add: algebra_simps)
  then show ?thesis
    using L vL LT unfolding E_def by blast
qed

lemma ease_error_minus [simp]: "ease_error (- T) (- v) = ease_error T v"
  by (simp add: ease_error_def)

lemma ease_limit:
  assumes "fl v = v" and "fl T = T" and "0 \<le> a" and "a \<le> 1 / 2"
  shows "\<exists>L. (\<lambda>n. (ease a T ^^ n) v) \<longlonglongrightarrow> L \<and> min v T \<le> L \<and> L \<le> max v T
    \<and> a * \<bar>L - T\<bar> \<le> ease_error T v"
proof (cases "v \<le> T")
  case True
  obtain L where L: "(\<lambda>n. (ease a T ^^ n) v) \<longlonglongrightarrow> L" "v \<le> L" "L \<le> T"
    "a * (T - L) \<le> ease_error T v"
    using ease_limit_up [OF assms(1,2) True assms(3,4)] by blast
  have "\<bar>L - T\<bar> = T - L"
    using L(3) by simp
  then have e: "a * \<bar>L - T\<bar> \<le> ease_error T v"
    using L(4) by simp
  have "min v T \<le> L" "L \<le> max v T"
    using L(2,3) True by linarith+
  then show ?thesis
    using L(1) e by blast
next
  case False
  then have le: "- v \<le> - T"
    by simp
  have m: "fl (- v) = - v" "fl (- T) = - T"
    using assms(1,2) by (simp_all add: fl_minus)
  obtain K where K: "(\<lambda>n. (ease a (- T) ^^ n) (- v)) \<longlonglongrightarrow> K" "- v \<le> K" "K \<le> - T"
    "a * (- T - K) \<le> ease_error (- T) (- v)"
    using ease_limit_up [OF m le assms(3,4)] by blast
  have "(\<lambda>n. - (ease a T ^^ n) v) \<longlonglongrightarrow> K"
    using K(1) by (simp add: ease_funpow_minus)
  then have "(\<lambda>n. - (- (ease a T ^^ n) v)) \<longlonglongrightarrow> - K"
    by (rule tendsto_minus)
  then have lim: "(\<lambda>n. (ease a T ^^ n) v) \<longlonglongrightarrow> - K"
    by simp
  have "\<bar>- K - T\<bar> = - T - K"
    using K(3) by simp
  then have e: "a * \<bar>- K - T\<bar> \<le> ease_error T v"
    using K(4) by simp
  have "min v T \<le> - K" "- K \<le> max v T"
    using K(2,3) False by linarith+
  then show ?thesis
    using lim e by blast
qed

subsubsection \<open>The eased values of the page\<close>

lemma fl_half [simp]: "fl (1 / 2) = 1 / 2"
  by (rule fl_grid [where n = 1 and e = "- 1"]) (simp_all add: power_int_minus_divide)

lemma fl_32th [simp]: "fl (1 / 32) = 1 / 32"
  by (rule fl_grid [where n = 1 and e = "- 5"]) (simp_all add: power_int_minus_divide)

lemma ease_coefficient:
  assumes "a \<in> {fl 0.12, fl 0.06, fl 0.08}"
  shows "1 / 32 \<le> a" and "a \<le> 1 / 2"
proof -
  have "fl (1 / 32) \<le> fl 0.12" "fl (1 / 32) \<le> fl 0.06" "fl (1 / 32) \<le> fl 0.08"
    by (rule fl_mono, simp)+
  then show "1 / 32 \<le> a"
    using assms by auto
  have "fl 0.12 \<le> fl (1 / 2)" "fl 0.06 \<le> fl (1 / 2)" "fl 0.08 \<le> fl (1 / 2)"
    by (rule fl_mono, simp)+
  then show "a \<le> 1 / 2"
    using assms by auto
qed

text \<open>
  Claim C5, as amended. Let \<open>a\<close> be one of the three coefficients, \<open>v\<close> and the target
  doubles whose difference does not overflow. Without rounding the update takes the
  distance to the target to exactly \<open>(1 - a)\<close> times itself. The update of the page
  gives a double between \<open>v\<close> and the target, so the distance never grows; it differs from
  the exact update by at most \<open>ease_error\<close>, so the distance is at most \<open>(1 - a)\<close> times
  the old one plus that error, and it shrinks strictly as long as \<open>a\<close> times the distance
  exceeds the error. The target is a fixed point. Repeated, the update converges to a
  value between the start and the target that is within \<open>ease_error / a\<close> of the
  target; it need not be the target.
\<close>

theorem C5_eased_values_settle_near_target:
  assumes "a \<in> {fl 0.12, fl 0.06, fl 0.08}" and "is_double v" and "is_double T"
    and "\<bar>T - v\<bar> < 2 ^ 1023"
  shows "\<bar>ease_exact a T v - T\<bar> = (1 - a) * \<bar>v - T\<bar>
    \<and> is_double (ease a T v)
    \<and> min v T \<le> ease a T v \<and> ease a T v \<le> max v T
    \<and> \<bar>ease a T v - T\<bar> \<le> \<bar>v - T\<bar>
    \<and> \<bar>ease a T v - ease_exact a T v\<bar> \<le> ease_error T v
    \<and> \<bar>ease a T v - T\<bar> \<le> (1 - a) * \<bar>v - T\<bar> + ease_error T v
    \<and> (ease_error T v < a * \<bar>v - T\<bar> \<longrightarrow> \<bar>ease a T v - T\<bar> < \<bar>v - T\<bar>)
    \<and> ease a T T = T
    \<and> (\<exists>L. (\<lambda>n. (ease a T ^^ n) v) \<longlonglongrightarrow> L \<and> min v T \<le> L \<and> L \<le> max v T
          \<and> a * \<bar>L - T\<bar> \<le> ease_error T v)"
proof -
  have a: "0 \<le> a" "a \<le> 1 / 2"
    using ease_coefficient [OF assms(1)] by simp_all
  have v: "fl v = v" and T: "fl T = T" and r: "\<bar>v\<bar> < 2 ^ 1024" "\<bar>T\<bar> < 2 ^ 1024"
    using assms(2,3) by (simp_all add: is_double_def)
  have exact: "\<bar>ease_exact a T v - T\<bar> = (1 - a) * \<bar>v - T\<bar>"
    using a(2) by (intro ease_exact_distance) simp
  have between: "min v T \<le> ease a T v" "ease a T v \<le> max v T"
    using ease_between [OF v T a] by simp_all
  have double: "is_double (ease a T v)"
    unfolding is_double_def using between r by (simp add: abs_le_iff min_def max_def split: if_splits)
  have closer: "\<bar>ease a T v - T\<bar> \<le> \<bar>v - T\<bar>"
    using between by linarith
  have rounding: "\<bar>ease a T v - ease_exact a T v\<bar> \<le> ease_error T v"
    using v T a by (rule ease_rounding)
  have contracts: "\<bar>ease a T v - T\<bar> \<le> (1 - a) * \<bar>v - T\<bar> + ease_error T v"
    using v T a by (rule ease_contracts)
  have strict: "\<bar>ease a T v - T\<bar> < \<bar>v - T\<bar>" if "ease_error T v < a * \<bar>v - T\<bar>"
  proof -
    have "(1 - a) * \<bar>v - T\<bar> + ease_error T v < (1 - a) * \<bar>v - T\<bar> + a * \<bar>v - T\<bar>"
      using that by (rule add_strict_left_mono)
    also have "\<dots> = \<bar>v - T\<bar>"
      by (simp add: algebra_simps)
    finally show ?thesis
      using contracts by linarith
  qed
  have fixed: "ease a T T = T"
    using T by (rule ease_fixed)
  show ?thesis
    using exact double between closer rounding contracts strict fixed ease_limit [OF v T a]
    by blast
qed

lemma fl_two [simp]: "fl 2 = 2"
  by (rule fl_grid [where n = 1 and e = 1]) simp_all

lemma fl_three_halves [simp]: "fl (3 / 2) = 3 / 2"
  by (rule fl_grid [where n = 3 and e = "- 1"]) (simp_all add: power_int_minus_divide)

lemma camera_heights:
  "3 / 2 \<le> fl (8 / 5)" "fl (8 / 5) \<le> 2" "0 \<le> fl (3 / 10)" "fl (3 / 10) \<le> 1 / 2"
proof -
  show "3 / 2 \<le> fl (8 / 5)"
    using fl_mono [of "3 / 2" "8 / 5"] by simp
  show "fl (8 / 5) \<le> 2"
    using fl_mono [of "8 / 5" 2] by simp
  show "0 \<le> fl (3 / 10)"
    by (rule fl_nonneg) simp
  show "fl (3 / 10) \<le> 1 / 2"
    using fl_mono [of "3 / 10" "1 / 2"] by simp
qed

text \<open>
  The theorem for the height of the camera, which starts at the double nearest 1.6, with
  the target at the double nearest 0.3: the first step moves it strictly down.
\<close>

theorem C5_eased_values_settle_near_target_witness:
  "fl (3 / 10) \<le> ease (fl (3 / 25)) (fl (3 / 10)) (fl (8 / 5))
   \<and> ease (fl (3 / 25)) (fl (3 / 10)) (fl (8 / 5)) < fl (8 / 5)
   \<and> \<bar>ease (fl (3 / 25)) (fl (3 / 10)) (fl (8 / 5)) - fl (3 / 10)\<bar>
       \<le> (1 - fl (3 / 25)) * \<bar>fl (8 / 5) - fl (3 / 10)\<bar> + ease_error (fl (3 / 10)) (fl (8 / 5))
   \<and> (\<exists>L. (\<lambda>n. (ease (fl (3 / 25)) (fl (3 / 10)) ^^ n) (fl (8 / 5))) \<longlonglongrightarrow> L
         \<and> fl (3 / 10) \<le> L \<and> L \<le> fl (8 / 5)
         \<and> fl (3 / 25) * \<bar>L - fl (3 / 10)\<bar> \<le> ease_error (fl (3 / 10)) (fl (8 / 5)))"
proof -
  note h = camera_heights
  have a: "fl (3 / 25) \<in> {fl 0.12, fl 0.06, fl 0.08}"
    by simp
  have a32: "1 / 32 \<le> fl (3 / 25)"
    using ease_coefficient(1) [OF a] .
  have v: "is_double (fl (8 / 5))"
    using h(1,2) by (simp add: is_double_def)
  have T: "is_double (fl (3 / 10))"
    using h(3,4) by (simp add: is_double_def)
  have r: "\<bar>fl (3 / 10) - fl (8 / 5)\<bar> < 2 ^ 1023"
    using h by simp
  have m: "min (fl (8 / 5)) (fl (3 / 10)) = fl (3 / 10)" "max (fl (8 / 5)) (fl (3 / 10)) = fl (8 / 5)"
    using h by simp_all
  have "max \<bar>fl (8 / 5)\<bar> \<bar>fl (3 / 10)\<bar> \<le> 2"
    using h by simp
  then have "max \<bar>fl (8 / 5)\<bar> \<bar>fl (3 / 10)\<bar> / 2 ^ 51 \<le> 2 / 2 ^ 51"
    by (rule divide_right_mono) simp
  moreover have "(1::real) / 2 ^ 1073 \<le> 1 / 2 ^ 51"
    by (intro divide_left_mono power_increasing) simp_all
  ultimately have "ease_error (fl (3 / 10)) (fl (8 / 5)) \<le> 2 / 2 ^ 51 + 1 / 2 ^ 51"
    unfolding ease_error_def by (rule add_mono)
  also have "\<dots> < (1 / 32 :: real)"
    by simp
  finally have e: "ease_error (fl (3 / 10)) (fl (8 / 5)) < 1 / 32" .
  have "1 / 32 * 1 \<le> fl (3 / 25) * \<bar>fl (8 / 5) - fl (3 / 10)\<bar>"
    using a32 h by (intro mult_mono) simp_all
  then have far: "ease_error (fl (3 / 10)) (fl (8 / 5)) < fl (3 / 25) * \<bar>fl (8 / 5) - fl (3 / 10)\<bar>"
    using e by simp
  note th = C5_eased_values_settle_near_target [OF a v T r]
  have "\<bar>ease (fl (3 / 25)) (fl (3 / 10)) (fl (8 / 5)) - fl (3 / 10)\<bar> < \<bar>fl (8 / 5) - fl (3 / 10)\<bar>"
    using th far by blast
  moreover have "fl (3 / 10) \<le> ease (fl (3 / 25)) (fl (3 / 10)) (fl (8 / 5))"
    using th unfolding m by blast
  ultimately have lt: "ease (fl (3 / 25)) (fl (3 / 10)) (fl (8 / 5)) < fl (8 / 5)"
    using h by linarith
  show ?thesis
    using th lt unfolding m by blast
qed

text \<open>
  The claim as it was stated fails one step below 1 with the target 1: the value differs
  from the target and the update returns it unchanged, so the distance does not shrink,
  and does not shrink by the factor \<open>1 - a\<close>.
\<close>

theorem C5_stalled_value_counterexample:
  "is_double (1 - 1 / 2 ^ 53) \<and> is_double 1 \<and> 1 - 1 / 2 ^ 53 \<noteq> (1::real)
   \<and> ease (fl 0.12) 1 (1 - 1 / 2 ^ 53) = 1 - 1 / 2 ^ 53
   \<and> \<not> \<bar>ease (fl 0.12) 1 (1 - 1 / 2 ^ 53) - 1\<bar> < \<bar>(1 - 1 / 2 ^ 53) - 1\<bar>"
proof -
  have "fl (1 - 1 / 2 ^ 53) = 1 - 1 / 2 ^ 53"
    by (rule fl_grid [where n = "2 ^ 53 - 1" and e = "- 53"]) (simp_all add: power_int_minus_divide)
  then have v: "is_double (1 - 1 / 2 ^ 53)"
    by (simp add: is_double_def)
  have T: "is_double 1"
    by (simp add: is_double_def)
  have ne: "1 - 1 / 2 ^ 53 \<noteq> (1::real)"
    by simp
  have "(0.12::real) = 12 / 100"
    by simp
  then have s: "ease (fl 0.12) 1 (1 - 1 / 2 ^ 53) = 1 - 1 / 2 ^ 53"
    using stall by (simp only:)
  have "\<not> \<bar>ease (fl 0.12) 1 (1 - 1 / 2 ^ 53) - 1\<bar> < \<bar>(1 - 1 / 2 ^ 53) - 1\<bar>"
    unfolding s by simp
  then show ?thesis
    using v T ne s by blast
qed

subsection \<open>The depth of the camera\<close>

lemma initialZ_track_scroll: "initialZ (track_scroll d n r) = initialZ r"
  by (simp add: track_scroll_def split: option.split)

lemma initialZ_frame_prepare:
  "initialZ (frame_prepare f r) =
     Some (case initialZ r of None \<Rightarrow> position_z (cam r) | Some z \<Rightarrow> z)"
  by (simp add: frame_prepare_def initialZ_track_scroll split: option.split)

lemma CameraRig_frame_ok:
  assumes "frame_target f (frame_prepare f r) = Inr tg"
  shows "CameraRig_frame f r = Inr (move_camera tg (frame_prepare f r))"
  using assms by (simp add: CameraRig_frame_def Let_def)


lemma length_frame_targets:
  assumes "sectionTargets_prop f = sectionTargets bb"
  shows "length (frame_targets f r) = 4"
proof (cases bb)
  case None
  then show ?thesis
    using assms by (simp add: frame_targets_def sectionTargets_def length_fallbackTargets)
next
  case (Some b)
  then obtain ts where "sectionTargets_prop f = Some ts" "length ts = 4"
    using assms by (simp add: sectionTargets_def Let_def)
  then show ?thesis
    by (simp add: frame_targets_def)
qed

lemma frame_target_total:
  assumes "sectionTargets_prop f = sectionTargets bb"
  shows "frame_target f r = Inr (spec_blend (frame_targets f r) (scroll_t f r))"
  unfolding frame_target_def using length_frame_targets [OF assms] by (rule blend_four)

lemma CameraRig_frame_total:
  assumes "sectionTargets_prop f = sectionTargets bb"
  shows "\<exists>r'. CameraRig_frame f r = Inr r'
     \<and> position_z (cam r') = (case initialZ r of None \<Rightarrow> position_z (cam r) | Some z \<Rightarrow> z)
     \<and> initialZ r' = Some (case initialZ r of None \<Rightarrow> position_z (cam r) | Some z \<Rightarrow> z)"
proof -
  obtain tg where tg: "frame_target f (frame_prepare f r) = Inr tg"
    using frame_target_total [OF assms] by blast
  have "CameraRig_frame f r = Inr (move_camera tg (frame_prepare f r))"
    using tg by (rule CameraRig_frame_ok)
  moreover have "position_z (cam (move_camera tg (frame_prepare f r)))
      = (case initialZ r of None \<Rightarrow> position_z (cam r) | Some z \<Rightarrow> z)"
    by (simp add: move_camera_def Let_def initialZ_frame_prepare)
  moreover have "initialZ (move_camera tg (frame_prepare f r))
      = Some (case initialZ r of None \<Rightarrow> position_z (cam r) | Some z \<Rightarrow> z)"
    by (simp add: move_camera_def Let_def initialZ_frame_prepare)
  ultimately show ?thesis
    by blast
qed

lemma CameraRig_run_z:
  assumes "\<forall>f \<in> set fs. \<exists>bb. sectionTargets_prop f = sectionTargets bb"
    and "initialZ r = Some z"
  shows "\<exists>r'. CameraRig_run fs r = Inr r' \<and> initialZ r' = Some z
     \<and> (if fs = [] then cam r' = cam r else position_z (cam r') = z)"
  using assms
proof (induction fs arbitrary: r)
  case Nil
  then show ?case by simp
next
  case (Cons f fs)
  obtain bb where "sectionTargets_prop f = sectionTargets bb"
    using Cons.prems(1) by auto
  then obtain r1 where r1: "CameraRig_frame f r = Inr r1" "position_z (cam r1) = z"
      "initialZ r1 = Some z"
    using CameraRig_frame_total [of f bb r] Cons.prems(2) by auto
  have "\<forall>f \<in> set fs. \<exists>bb. sectionTargets_prop f = sectionTargets bb"
    using Cons.prems(1) by simp
  then obtain r' where r': "CameraRig_run fs r1 = Inr r'" "initialZ r' = Some z"
      "if fs = [] then cam r' = cam r1 else position_z (cam r') = z"
    using Cons.IH [OF _ r1(3)] by blast
  have "position_z (cam r') = z"
    using r'(3) r1(2) by (cases "fs = []") simp_all
  then show ?case
    using r1(1) r'(1) r'(2) by simp
qed

lemma js_index_map: "js_index (map g xs) i = map_option g (js_index xs i)"
proof (cases "0 \<le> i \<and> i < int (length xs)")
  case True
  then have "nat i < length xs" by linarith
  then show ?thesis
    using True by (simp add: js_index_def)
next
  case False
  then show ?thesis
    by (auto simp add: js_index_def)
qed

lemma blend_ignores_camZ: "blend (map (\<lambda>w. w\<lparr>camZ := k w\<rparr>) ts) t = blend ts t"
  by (simp add: blend_def js_index_map Let_def split: option.split)

lemma frame_target_ignores_camZ:
  "frame_target
     (f\<lparr>sectionTargets_prop := map_option (map (\<lambda>w. w\<lparr>camZ := k w\<rparr>)) (sectionTargets_prop f)\<rparr>) r
   = frame_target f r"
  by (cases "sectionTargets_prop f")
    (simp_all add: frame_target_def frame_targets_def scroll_t_def read_dreiOffset_def
      blend_ignores_camZ)

lemma frame_prepare_ignores_targets:
  "frame_prepare (f\<lparr>sectionTargets_prop := p\<rparr>) r = frame_prepare f r"
  by (simp add: frame_prepare_def read_dreiOffset_def)

lemma CameraRig_frame_ignores_camZ:
  "CameraRig_frame
     (f\<lparr>sectionTargets_prop := map_option (map (\<lambda>w. w\<lparr>camZ := k w\<rparr>)) (sectionTargets_prop f)\<rparr>) r
   = CameraRig_frame f r"
  by (simp only: CameraRig_frame_def frame_prepare_ignores_targets frame_target_ignores_camZ)

lemma camZ_sectionTargets:
  "map_option (map camZ) (sectionTargets (Some b)) =
     (let height = num_or (Some (bb_height b)) (max 1 (vec_y (bb_max b) - vec_y (bb_min b)));
          baseZ = max 3 (height * 3)
      in Some [baseZ * 0.9, baseZ * 0.75, baseZ * 0.65, baseZ * 0.55])"
  by (simp add: sectionTargets_def Let_def)

text \<open>
  Claim C10. The camera does not move along Z. When the prop \<^verbatim>\<open>sectionTargets\<close> is what
  \<^verbatim>\<open>SceneWithAutoTargets\<close> computes (nothing, or the four waypoints of a bounding box),
  every sequence of frames from the initial rig succeeds and leaves \<^verbatim>\<open>camera.position.z\<close>
  at the value the camera had before the first frame, which the first frame stores in
  \<^verbatim>\<open>initialZ\<close>; a single frame from any state sets the depth to the stored value (to the
  current depth when none is stored yet). The result of a frame does not depend on the
  \<^verbatim>\<open>camZ\<close> fields of the waypoints, which for a bounding box are \<open>baseZ\<close> times 0.9, 0.75,
  0.65 and 0.55 with \<open>baseZ = max 3 (height * 3)\<close>.
\<close>

theorem C10_camera_z_is_frozen:
  assumes "\<forall>f \<in> set fs. \<exists>bb. sectionTargets_prop f = sectionTargets bb"
    and "sectionTargets_prop f = sectionTargets bb"
  shows "(\<exists>r'. CameraRig_run fs (CameraRig_init t0 c) = Inr r'
            \<and> position_z (cam r') = position_z c
            \<and> initialZ r' = (if fs = [] then None else Some (position_z c)))
    \<and> (\<exists>r'. CameraRig_frame f r = Inr r'
            \<and> position_z (cam r')
                = (case initialZ r of None \<Rightarrow> position_z (cam r) | Some z \<Rightarrow> z)
            \<and> initialZ r'
                = Some (case initialZ r of None \<Rightarrow> position_z (cam r) | Some z \<Rightarrow> z))
    \<and> CameraRig_frame
         (f\<lparr>sectionTargets_prop :=
              map_option (map (\<lambda>w. w\<lparr>camZ := k w\<rparr>)) (sectionTargets_prop f)\<rparr>) r
        = CameraRig_frame f r
    \<and> map_option (map camZ) (sectionTargets (Some b)) =
        (let height = num_or (Some (bb_height b)) (max 1 (vec_y (bb_max b) - vec_y (bb_min b)));
             baseZ = max 3 (height * 3)
         in Some [baseZ * 0.9, baseZ * 0.75, baseZ * 0.65, baseZ * 0.55])"
proof -
  have run: "\<exists>r'. CameraRig_run fs (CameraRig_init t0 c) = Inr r'
            \<and> position_z (cam r') = position_z c
            \<and> initialZ r' = (if fs = [] then None else Some (position_z c))"
  proof (cases fs)
    case Nil
    then show ?thesis
      by (simp add: CameraRig_init_def)
  next
    case (Cons g gs)
    obtain bg where "sectionTargets_prop g = sectionTargets bg"
      using assms(1) Cons by auto
    then obtain r1 where r1: "CameraRig_frame g (CameraRig_init t0 c) = Inr r1"
        "position_z (cam r1) = position_z c" "initialZ r1 = Some (position_z c)"
      using CameraRig_frame_total [of g bg "CameraRig_init t0 c"]
      by (auto simp add: CameraRig_init_def)
    have "\<forall>f \<in> set gs. \<exists>bb. sectionTargets_prop f = sectionTargets bb"
      using assms(1) Cons by simp
    then obtain r' where r': "CameraRig_run gs r1 = Inr r'" "initialZ r' = Some (position_z c)"
        "if gs = [] then cam r' = cam r1 else position_z (cam r') = position_z c"
      using CameraRig_run_z [OF _ r1(3)] by blast
    have "position_z (cam r') = position_z c"
      using r'(3) r1(2) by (cases "gs = []") simp_all
    then show ?thesis
      using Cons r1(1) r'(1) r'(2) by simp
  qed
  show ?thesis
    using run CameraRig_frame_total [OF assms(2)] CameraRig_frame_ignores_camZ camZ_sectionTargets
    by blast
qed

theorem C10_camera_z_is_frozen_witness:
  "(\<exists>r'. CameraRig_run [sample_frame, sample_frame_bbox] (CameraRig_init 0 sample_camera) = Inr r'
      \<and> position_z (cam r') = 4 \<and> initialZ r' = Some 4)
   \<and> map_option (map camZ) (sectionTargets (Some sample_bbox)) = Some [27 / 5, 9 / 2, 39 / 10, 33 / 10]"
proof -
  have a: "sectionTargets_prop sample_frame = sectionTargets None"
    by (simp add: sample_frame_def sectionTargets_def)
  have b: "sectionTargets_prop sample_frame_bbox = sectionTargets (Some sample_bbox)"
    by (simp add: sample_frame_bbox_def)
  have all: "\<forall>f \<in> set [sample_frame, sample_frame_bbox]. \<exists>bb. sectionTargets_prop f = sectionTargets bb"
    using a b by auto
  have z: "position_z sample_camera = 4"
    by (simp add: sample_camera_def)
  have h: "num_or (Some (bb_height sample_bbox))
      (max 1 (vec_y (bb_max sample_bbox) - vec_y (bb_min sample_bbox))) = 2"
    by (simp add: num_or_def sample_bbox_def)
  note th = C10_camera_z_is_frozen [OF all a, where ?t0.0 = 0 and c = sample_camera and b = sample_bbox]
  show ?thesis
    using th by (simp add: z h Let_def)
qed

subsection \<open>The source of the scroll fraction\<close>

lemma useWindowFallback_track_scroll:
  "useWindowFallback (track_scroll d n r) =
     (case lastDrei r of
        None \<Rightarrow> useWindowFallback r
      | Some l \<Rightarrow>
          \<bar>d - l\<bar> \<le> 0.00001
          \<and> (useWindowFallback r \<or> (spec_idle_timeout l d (lastChangeTime r) n \<and> \<bar>d\<bar> < 0.000001)))"
  by (auto simp add: track_scroll_def spec_idle_timeout_def split: option.split)

lemma lastDrei_track_scroll:
  "lastDrei (track_scroll d n r) =
     (case lastDrei r of
        None \<Rightarrow> Some d
      | Some l \<Rightarrow> if \<bar>d - l\<bar> > 0.00001 then Some d else Some l)"
  by (simp add: track_scroll_def split: option.split)

lemma lastChangeTime_track_scroll:
  "lastChangeTime (track_scroll d n r) =
     (case lastDrei r of
        None \<Rightarrow> n
      | Some l \<Rightarrow> if \<bar>d - l\<bar> > 0.00001 then n else lastChangeTime r)"
  by (simp add: track_scroll_def split: option.split)

lemma track_scroll_initialZ:
  "track_scroll d n (r\<lparr>initialZ := z\<rparr>) = (track_scroll d n r)\<lparr>initialZ := z\<rparr>"
  by (simp add: track_scroll_def split: option.split)

lemma frame_prepare_tracking:
  "useWindowFallback (frame_prepare f r) = useWindowFallback (track_scroll (read_dreiOffset f) (now f) r)"
  "lastDrei (frame_prepare f r) = lastDrei (track_scroll (read_dreiOffset f) (now f) r)"
  "lastChangeTime (frame_prepare f r) = lastChangeTime (track_scroll (read_dreiOffset f) (now f) r)"
  by (simp_all add: frame_prepare_def track_scroll_initialZ)

text \<open>
  Claim C2, as amended. The rig records the offset of the scroll controls on its first
  frame and whenever the offset differs from the recorded one by more than \<open>1e-5\<close>, with
  the time of that frame. A frame whose offset differs from the recorded one by more than
  \<open>1e-5\<close> uses the offset of the scroll controls. A frame whose offset is within \<open>1e-5\<close> of
  the recorded one uses the window measurement if the previous frame did, or if more
  than 300 ms have passed since the recorded time and the offset itself is below \<open>1e-6\<close>
  in absolute value; otherwise it uses the offset of the scroll controls.
\<close>

theorem C2_fallback_rule:
  "useWindowFallback (frame_prepare f r) =
     (case lastDrei r of
        None \<Rightarrow> useWindowFallback r
      | Some l \<Rightarrow>
          \<bar>read_dreiOffset f - l\<bar> \<le> 0.00001
          \<and> (useWindowFallback r
               \<or> (spec_idle_timeout l (read_dreiOffset f) (lastChangeTime r) (now f)
                   \<and> \<bar>read_dreiOffset f\<bar> < 0.000001)))
   \<and> lastDrei (frame_prepare f r) =
       (case lastDrei r of
          None \<Rightarrow> Some (read_dreiOffset f)
        | Some l \<Rightarrow> if \<bar>read_dreiOffset f - l\<bar> > 0.00001 then Some (read_dreiOffset f) else Some l)
   \<and> lastChangeTime (frame_prepare f r) =
       (case lastDrei r of
          None \<Rightarrow> now f
        | Some l \<Rightarrow> if \<bar>read_dreiOffset f - l\<bar> > 0.00001 then now f else lastChangeTime r)
   \<and> scroll_t f (frame_prepare f r) =
       (if useWindowFallback (frame_prepare f r) then windowNorm (win f) else read_dreiOffset f)"
proof (intro conjI)
  show "useWindowFallback (frame_prepare f r) =
     (case lastDrei r of
        None \<Rightarrow> useWindowFallback r
      | Some l \<Rightarrow>
          \<bar>read_dreiOffset f - l\<bar> \<le> 0.00001
          \<and> (useWindowFallback r
               \<or> (spec_idle_timeout l (read_dreiOffset f) (lastChangeTime r) (now f)
                   \<and> \<bar>read_dreiOffset f\<bar> < 0.000001)))"
    unfolding frame_prepare_tracking by (rule useWindowFallback_track_scroll)
  show "lastDrei (frame_prepare f r) =
       (case lastDrei r of
          None \<Rightarrow> Some (read_dreiOffset f)
        | Some l \<Rightarrow> if \<bar>read_dreiOffset f - l\<bar> > 0.00001 then Some (read_dreiOffset f) else Some l)"
    unfolding frame_prepare_tracking by (rule lastDrei_track_scroll)
  show "lastChangeTime (frame_prepare f r) =
       (case lastDrei r of
          None \<Rightarrow> now f
        | Some l \<Rightarrow> if \<bar>read_dreiOffset f - l\<bar> > 0.00001 then now f else lastChangeTime r)"
    unfolding frame_prepare_tracking by (rule lastChangeTime_track_scroll)
  show "scroll_t f (frame_prepare f r) =
       (if useWindowFallback (frame_prepare f r) then windowNorm (win f) else read_dreiOffset f)"
    by (simp add: scroll_t_def)
qed

theorem C2_fallback_rule_witness:
  "useWindowFallback
     (frame_prepare \<lparr>dreiOffset = Some 0, now = 400, win = sample_host, sectionTargets_prop = None\<rparr>
        \<lparr>lastDrei = Some 0, lastChangeTime = 16, useWindowFallback = False, initialZ = Some 4,
         cam = sample_camera\<rparr>)
   \<and> scroll_t \<lparr>dreiOffset = Some 0, now = 400, win = sample_host, sectionTargets_prop = None\<rparr>
     (frame_prepare \<lparr>dreiOffset = Some 0, now = 400, win = sample_host, sectionTargets_prop = None\<rparr>
        \<lparr>lastDrei = Some 0, lastChangeTime = 16, useWindowFallback = False, initialZ = Some 4,
         cam = sample_camera\<rparr>) = 1 / 2"
proof -
  have w: "windowNorm sample_host = 1 / 2"
    by (simp add: windowNorm_def read_scrollY_def maxScroll_def read_docH_def read_winH_def
        num_or_def sample_host_def)
  note th = C2_fallback_rule [of
      "\<lparr>dreiOffset = Some 0, now = 400, win = sample_host, sectionTargets_prop = None\<rparr>"
      "\<lparr>lastDrei = Some 0, lastChangeTime = 16, useWindowFallback = False, initialZ = Some 4,
         cam = sample_camera\<rparr>"]
  show ?thesis
    using th by (simp add: w read_dreiOffset_def spec_idle_timeout_def)
qed

text \<open>
  Claim C2 as stated fails: an offset that stays at one half for 984 ms satisfies the
  idle rule of the specification, and the rig still uses the scroll controls.
\<close>

theorem C2_idle_nonzero_offset_counterexample:
  "spec_idle_timeout (1 / 2) (1 / 2) 16 1000
   \<and> map_sum id (\<lambda>r. (lastDrei r, lastChangeTime r, useWindowFallback r))
        (CameraRig_run [sample_frame, sample_frame\<lparr>now := 1000\<rparr>] (CameraRig_init 0 sample_camera))
       = Inr (Some (1 / 2), 16, False)"
proof -
  have 1: "CameraRig_frame sample_frame (CameraRig_init 0 sample_camera)
      = Inr \<lparr>lastDrei = Some (1 / 2), lastChangeTime = 16, useWindowFallback = False,
         initialZ = Some 4,
         cam = \<lparr>position_x = 0, position_y = 176 / 125, position_z = 4,
                 look = Vector3 0 (- (1 / 5)) 0\<rparr>\<rparr>"
    by (simp add: CameraRig_frame_def frame_prepare_def CameraRig_init_def sample_frame_def
        sample_camera_def track_scroll_def read_dreiOffset_def frame_target_def frame_targets_def
        scroll_t_def fallbackTargets_def blend_def js_index_def move_camera_def Let_def)
  have 2: "CameraRig_frame (sample_frame\<lparr>now := 1000\<rparr>)
        \<lparr>lastDrei = Some (1 / 2), lastChangeTime = 16, useWindowFallback = False,
         initialZ = Some 4,
         cam = \<lparr>position_x = 0, position_y = 176 / 125, position_z = 4,
                 look = Vector3 0 (- (1 / 5)) 0\<rparr>\<rparr>
      = Inr \<lparr>lastDrei = Some (1 / 2), lastChangeTime = 16, useWindowFallback = False,
         initialZ = Some 4,
         cam = \<lparr>position_x = 0, position_y = 3872 / 3125, position_z = 4,
                 look = Vector3 0 (- (1 / 5)) 0\<rparr>\<rparr>"
    by (simp add: CameraRig_frame_def frame_prepare_def sample_frame_def
        track_scroll_def read_dreiOffset_def frame_target_def frame_targets_def
        scroll_t_def fallbackTargets_def blend_def js_index_def move_camera_def Let_def)
  have 3: "spec_idle_timeout (1 / 2) (1 / 2) 16 1000"
    by (simp add: spec_idle_timeout_def)
  show ?thesis
    using 3 by (simp add: 1 2)
qed

subsection \<open>The drag state machine\<close>

lemma dragRotation_handleMouseMove:
  "dragRotation (handleMouseMove h x p) =
     (case lastXRef p of
        None \<Rightarrow> dragRotation p
      | Some lx \<Rightarrow>
          if draggingRef p then dragRotation p + ((x - lx) / read_w h) * DRAG_SENSITIVITY
          else dragRotation p)"
  by (simp add: handleMouseMove_def Let_def split: option.split)

lemma dragRotation_onPointerMove:
  "dragRotation (onPointerMove h x p) =
     (if draggingRef p
      then dragRotation p
           + ((x - (case lastXRef p of None \<Rightarrow> x | Some l \<Rightarrow> l)) / read_w h) * DRAG_SENSITIVITY
      else dragRotation p)"
  by (simp add: onPointerMove_def Let_def)

lemma not_dragging_keeps_rotation:
  assumes "\<not> draggingRef p"
  shows "dragRotation (handle h e p) = dragRotation p"
  using assms
  by (cases e)
    (simp_all add: dragRotation_handleMouseMove dragRotation_onPointerMove
      handleTouchMoveHover_def onPointerDown_def onPointerUp_def onTouchStart_def onTouchEnd_def
      split: option.split list.split)

lemma only_moves_change_rotation:
  assumes "\<not> is_move e"
  shows "dragRotation (handle h e p) = dragRotation p"
  using assms
  by (cases e)
    (simp_all add: is_move_def onPointerDown_def onPointerUp_def onTouchStart_def onTouchEnd_def
      split: option.split list.split)


lemma handle_keeps_two_states:
  assumes "draggingRef p = (lastXRef p \<noteq> None)"
  shows "draggingRef (handle h e p) = (lastXRef (handle h e p) \<noteq> None)"
  using assms
  by (cases e)
    (auto simp add: handleMouseMove_def handleTouchMoveHover_def onPointerDown_def
      onPointerMove_def onPointerUp_def onTouchStart_def onTouchEnd_def Let_def
      split: option.split list.split)

lemma Page_run_keeps_two_states:
  assumes "draggingRef p = (lastXRef p \<noteq> None)"
  shows "draggingRef (Page_run evs p) = (lastXRef (Page_run evs p) \<noteq> None)"
  using assms
proof (induction evs arbitrary: p)
  case Nil
  then show ?case by simp
next
  case (Cons he evs)
  obtain h e where he: "he = (h, e)"
    by (cases he)
  have "draggingRef (handle h e p) = (lastXRef (handle h e p) \<noteq> None)"
    using Cons.prems by (rule handle_keeps_two_states)
  then show ?case
    unfolding he using Cons.IH by simp
qed

text \<open>
  Claim C6. The drag state machine has two states: after any sequence of events the drag
  flag is set exactly when a last abscissa is stored. \<^verbatim>\<open>pointerdown\<close> and \<^verbatim>\<open>touchstart\<close>
  (with the touch that started in \<^verbatim>\<open>e.touches\<close>) set the flag; \<^verbatim>\<open>pointerup\<close>,
  \<^verbatim>\<open>pointercancel\<close> and \<^verbatim>\<open>touchend\<close> clear the flag and the stored abscissa. An event
  changes \<^verbatim>\<open>dragRotation\<close> only if it is a move event and the flag is set, never when the
  flag is clear; while the flag is set, a mouse, pointer or touch move to \<open>x\<close> changes it
  by \<open>(x - lastX) / w * DRAG_SENSITIVITY\<close>, with \<open>w\<close> the window width or 1.
\<close>

theorem C6_drag_state_machine:
  assumes "draggingRef pd" and "lastXRef pd = Some lx"
  shows "draggingRef (Page_run evs Page_init) = (lastXRef (Page_run evs Page_init) \<noteq> None)
    \<and> draggingRef (handle h (PointerDown x) p) \<and> lastXRef (handle h (PointerDown x) p) = Some x
    \<and> draggingRef (handle h (TouchStart (Some (x # xs))) p)
    \<and> lastXRef (handle h (TouchStart (Some (x # xs))) p) = Some x
    \<and> \<not> draggingRef (handle h PointerUp p) \<and> lastXRef (handle h PointerUp p) = None
    \<and> \<not> draggingRef (handle h PointerCancel p) \<and> lastXRef (handle h PointerCancel p) = None
    \<and> \<not> draggingRef (handle h TouchEnd p) \<and> lastXRef (handle h TouchEnd p) = None
    \<and> (dragRotation (handle h e p) \<noteq> dragRotation p \<longrightarrow> draggingRef p \<and> is_move e)
    \<and> dragRotation (handle h (MouseMove x) pd)
        = dragRotation pd + ((x - lx) / read_w h) * DRAG_SENSITIVITY
    \<and> dragRotation (handle h (PointerMove x) pd)
        = dragRotation pd + ((x - lx) / read_w h) * DRAG_SENSITIVITY
    \<and> dragRotation (handle h (TouchMove (Some (x # xs))) pd)
        = dragRotation pd + ((x - lx) / read_w h) * DRAG_SENSITIVITY
    \<and> lastXRef (handle h (MouseMove x) pd) = Some x
    \<and> lastXRef (handle h (PointerMove x) pd) = Some x
    \<and> lastXRef (handle h (TouchMove (Some (x # xs))) pd) = Some x"
proof -
  have two: "draggingRef (Page_run evs Page_init) = (lastXRef (Page_run evs Page_init) \<noteq> None)"
    by (rule Page_run_keeps_two_states) (simp add: Page_init_def)
  have only: "dragRotation (handle h e p) \<noteq> dragRotation p \<longrightarrow> draggingRef p \<and> is_move e"
    using not_dragging_keeps_rotation [of p h e] only_moves_change_rotation [of e h p] by blast
  have starts: "draggingRef (handle h (PointerDown x) p)"
    "lastXRef (handle h (PointerDown x) p) = Some x"
    "draggingRef (handle h (TouchStart (Some (x # xs))) p)"
    "lastXRef (handle h (TouchStart (Some (x # xs))) p) = Some x"
    by (simp_all add: onPointerDown_def onTouchStart_def)
  have stops: "\<not> draggingRef (handle h PointerUp p)" "lastXRef (handle h PointerUp p) = None"
    "\<not> draggingRef (handle h PointerCancel p)" "lastXRef (handle h PointerCancel p) = None"
    "\<not> draggingRef (handle h TouchEnd p)" "lastXRef (handle h TouchEnd p) = None"
    by (simp_all add: onPointerUp_def onTouchEnd_def)
  have moves: "dragRotation (handle h (MouseMove x) pd)
        = dragRotation pd + ((x - lx) / read_w h) * DRAG_SENSITIVITY"
    "dragRotation (handle h (PointerMove x) pd)
        = dragRotation pd + ((x - lx) / read_w h) * DRAG_SENSITIVITY"
    "dragRotation (handle h (TouchMove (Some (x # xs))) pd)
        = dragRotation pd + ((x - lx) / read_w h) * DRAG_SENSITIVITY"
    using assms
    by (simp_all add: dragRotation_handleMouseMove dragRotation_onPointerMove
        handleTouchMoveHover_def)
  have last: "lastXRef (handle h (MouseMove x) pd) = Some x"
    "lastXRef (handle h (PointerMove x) pd) = Some x"
    "lastXRef (handle h (TouchMove (Some (x # xs))) pd) = Some x"
    using assms
    by (simp_all add: handleMouseMove_def handleTouchMoveHover_def onPointerMove_def Let_def)
  show ?thesis
    using two starts stops only moves last by blast
qed

theorem C6_drag_state_machine_witness:
  "draggingRef (handle sample_host (TouchStart (Some [120, 340])) Page_init)
   \<and> lastXRef (handle sample_host (TouchStart (Some [120, 340])) Page_init) = Some 120
   \<and> draggingRef (handle sample_host (PointerDown 100) Page_init)
   \<and> lastXRef (handle sample_host (PointerDown 100) Page_init) = Some 100
   \<and> dragRotation (handle sample_host (PointerMove 300) (handle sample_host (PointerDown 100) Page_init))
       = (1 / 5) * DRAG_SENSITIVITY
   \<and> dragRotation (handle sample_host (MouseMove 300) (handle sample_host (PointerUp) (handle sample_host (PointerDown 100) Page_init)))
       = 0"
proof -
  have d: "draggingRef (handle sample_host (PointerDown 100) Page_init)"
    and l: "lastXRef (handle sample_host (PointerDown 100) Page_init) = Some 100"
    by (simp_all add: onPointerDown_def)
  have w: "read_w sample_host = 1000"
    by (simp add: read_w_def sample_host_def num_or_def)
  note th = C6_drag_state_machine [OF d l, where h = sample_host and x = 300
      and e = "MouseMove 300"
      and p = "handle sample_host PointerUp (handle sample_host (PointerDown 100) Page_init)"]
  note ts = C6_drag_state_machine [OF d l, where h = sample_host and x = 120 and xs = "[340]"
      and p = Page_init]
  have t: "draggingRef (handle sample_host (TouchStart (Some [120, 340])) Page_init)"
    "lastXRef (handle sample_host (TouchStart (Some [120, 340])) Page_init) = Some 120"
    using ts by blast+
  have m: "dragRotation (handle sample_host (PointerMove 300) (handle sample_host (PointerDown 100) Page_init))
       = (1 / 5) * DRAG_SENSITIVITY"
    using th by (simp add: w Page_init_def onPointerDown_def)
  have "\<not> draggingRef (handle sample_host PointerUp (handle sample_host (PointerDown 100) Page_init))"
    by (simp add: onPointerUp_def)
  then have u: "dragRotation (handle sample_host (MouseMove 300) (handle sample_host (PointerUp) (handle sample_host (PointerDown 100) Page_init)))
       = 0"
    using th by (simp add: Page_init_def onPointerDown_def onPointerUp_def)
  show ?thesis
    using t d l m u by simp
qed

subsection \<open>Failure and the loading placeholder\<close>













lemma blend_js_NaN: "blend_js ts NaN = Inl TypeError"
  by (simp add: blend_js_def)









end
